theory Spec2Isabelle
  imports Main
begin

section \<open>Errors\<close>

text \<open>
  A JavaScript error value as the code inspects it: the class tested by
  \<^verbatim>\<open>instanceof\<close> (bluebird's \<^verbatim>\<open>.catch(Class, ...)\<close>), the optional
  \<^verbatim>\<open>code\<close> property (\<open>None\<close> is \<^verbatim>\<open>undefined\<close>) and the message.
\<close>

datatype errclass = ProcessCanceled | TemporaryError | UserCanceled | OtherError

record err =
  cls :: errclass
  code :: "string option"
  message :: string

definition mkErr :: "errclass \<Rightarrow> string option \<Rightarrow> string \<Rightarrow> err" where
  "mkErr c k m = \<lparr>cls = c, code = k, message = m\<rparr>"

definition fsError :: "string \<Rightarrow> err" where
  "fsError k = mkErr OtherError (Some k) k"

section \<open>The link worker (remoteCode)\<close>

subsection \<open>World of the worker\<close>

text \<open>
  The worker talks to \<^verbatim>\<open>fs-extra\<close> and to the ipc channel. Every call to the
  file system is appended to \<open>calls\<close>, every message sent with \<^verbatim>\<open>emit\<close> to
  \<open>emitted\<close>; \<open>clock\<close> sums the delays of \<^verbatim>\<open>delayed\<close> in milliseconds.
  What a file system call answers is not decided by the worker: the environment
  \<open>fsenv\<close> gives the outcome of the call made as the \<open>n\<close>-th one.
\<close>

text \<open>\<open>ensureDir\<close> answers with the first directory it had to create, or with
  \<^verbatim>\<open>null\<close> (\<open>None\<close>) when the directory was there.\<close>

datatype fscall =
    EnsureDir string
  | WriteFile string string
  | Remove string
  | Symlink string string
  | Lstat string

datatype message =
    Initialised
  | Log string string
  | Completed "err option" int
  | Report string

record world =
  calls :: "fscall list"
  emitted :: "message list"
  clock :: nat

record stats =
  isSymbolicLink :: bool

record fsenv =
  platform :: string
  dirname :: "string \<Rightarrow> string"
  join :: "string \<Rightarrow> string \<Rightarrow> string"
  ensureDir_res :: "nat \<Rightarrow> string \<Rightarrow> err + string option"
  writeFile_res :: "nat \<Rightarrow> string \<Rightarrow> string \<Rightarrow> err + unit"
  remove_res :: "nat \<Rightarrow> string \<Rightarrow> err + unit"
  symlink_res :: "nat \<Rightarrow> string \<Rightarrow> string \<Rightarrow> err + unit"
  lstat_res :: "nat \<Rightarrow> string \<Rightarrow> err + stats"

type_synonym 'a io = "world \<Rightarrow> (err + 'a) \<times> world"

definition fsop :: "fscall \<Rightarrow> (nat \<Rightarrow> err + 'a) \<Rightarrow> 'a io" where
  "fsop c res w = (res (length (calls w)), w\<lparr>calls := calls w @ [c]\<rparr>)"

definition fs_ensureDir :: "fsenv \<Rightarrow> string \<Rightarrow> (string option) io" where
  "fs_ensureDir env d = fsop (EnsureDir d) (\<lambda>n. ensureDir_res env n d)"

definition fs_writeFile :: "fsenv \<Rightarrow> string \<Rightarrow> string \<Rightarrow> unit io" where
  "fs_writeFile env p txt = fsop (WriteFile p txt) (\<lambda>n. writeFile_res env n p txt)"

definition fs_remove :: "fsenv \<Rightarrow> string \<Rightarrow> unit io" where
  "fs_remove env p = fsop (Remove p) (\<lambda>n. remove_res env n p)"

definition fs_symlink :: "fsenv \<Rightarrow> string \<Rightarrow> string \<Rightarrow> unit io" where
  "fs_symlink env src dst = fsop (Symlink src dst) (\<lambda>n. symlink_res env n src dst)"

definition fs_lstat :: "fsenv \<Rightarrow> string \<Rightarrow> stats io" where
  "fs_lstat env p = fsop (Lstat p) (\<lambda>n. lstat_res env n p)"

definition emit :: "message \<Rightarrow> world \<Rightarrow> world" where
  "emit m w = w\<lparr>emitted := emitted w @ [m]\<rparr>"

definition delayed :: "nat \<Rightarrow> world \<Rightarrow> world" where
  "delayed d w = w\<lparr>clock := clock w + d\<rparr>"

subsection \<open>doFS\<close>

definition RETRY_ERRORS :: "string list" where
  "RETRY_ERRORS = [''EPERM'', ''EBUSY'', ''EIO'', ''EBADF'', ''UNKNOWN'']"

definition retryable :: "err \<Rightarrow> bool" where
  "retryable e = (case code e of None \<Rightarrow> False | Some k \<Rightarrow> k \<in> set RETRY_ERRORS)"

function doFS :: "'a io \<Rightarrow> int \<Rightarrow> 'a io" where
  "doFS op tries w =
     (case op w of
        (Inr v, w') \<Rightarrow> (Inr v, w')
      | (Inl e, w') \<Rightarrow>
          if retryable e \<and> tries > 0
          then doFS op (tries - 1) (delayed 100 w')
          else (Inl e, w'))"
  by pat_completeness auto
termination
  by (relation "measure (\<lambda>(op, tries, w). nat tries)") auto

subsection \<open>Promise chains\<close>

text \<open>
  \<^verbatim>\<open>p.then(f)\<close> runs \<open>f\<close> on the value when \<open>p\<close> is fulfilled and passes a
  rejection on; \<^verbatim>\<open>p.catch(h)\<close> runs \<open>h\<close> on the error when \<open>p\<close> is rejected
  and passes a value on.
\<close>

definition resolve :: "'a \<Rightarrow> 'a io" where
  "resolve v w = (Inr v, w)"

definition reject :: "err \<Rightarrow> 'a io" where
  "reject e w = (Inl e, w)"

definition then_io :: "'a io \<Rightarrow> ('a \<Rightarrow> 'b io) \<Rightarrow> 'b io" where
  "then_io p f w = (case p w of (Inl e, w') \<Rightarrow> (Inl e, w') | (Inr v, w') \<Rightarrow> f v w')"

definition catch_io :: "'a io \<Rightarrow> (err \<Rightarrow> 'a io) \<Rightarrow> 'a io" where
  "catch_io p h w = (case p w of (Inl e, w') \<Rightarrow> h e w' | (Inr v, w') \<Rightarrow> (Inr v, w'))"

subsection \<open>The handlers\<close>

text \<open>The payload of a request; \<open>source\<close> is not read by remove-link.\<close>

record payload =
  source :: string
  destination :: string
  num :: int

definition TAG_NAME :: "fsenv \<Rightarrow> string" where
  "TAG_NAME env =
     (if platform env = ''win32'' then ''__folder_managed_by_vortex''
      else ''.__folder_managed_by_vortex'')"

definition TAG_TEXT :: string where
  "TAG_TEXT = ''This directory was created by Vortex deployment and will be removed '' @
              ''during purging if it's empty''"

text \<open>The first \<^verbatim>\<open>.then\<close> of the link-file handler: tag a directory that was just
  created, or clear the destination when the directory was there before.\<close>

definition link_file_prepare :: "fsenv \<Rightarrow> payload \<Rightarrow> string option \<Rightarrow> unit io" where
  "link_file_prepare env p created =
     (case created of
        Some c \<Rightarrow>
          (\<lambda>w. doFS (fs_writeFile env (join env c (TAG_NAME env)) TAG_TEXT) 5
                 (emit (Log ''debug'' ''created directory'') w))
      | None \<Rightarrow>
          catch_io (doFS (fs_remove env (destination p)) 5)
            (\<lambda>e. if code e = Some ''ENOENT'' then resolve () else reject e))"

text \<open>The second \<^verbatim>\<open>.then\<close>: create the link; on \<^verbatim>\<open>EEXIST\<close> remove the
  destination and create the link again.\<close>

definition link_file_symlink :: "fsenv \<Rightarrow> payload \<Rightarrow> unit io" where
  "link_file_symlink env p =
     catch_io (doFS (fs_symlink env (source p) (destination p)) 5)
       (\<lambda>e. if code e \<noteq> Some ''EEXIST'' then reject e
            else then_io (doFS (fs_remove env (destination p)) 5)
                   (\<lambda>_. doFS (fs_symlink env (source p) (destination p)) 5))"

definition link_file_installed :: "payload \<Rightarrow> unit io" where
  "link_file_installed p w =
     resolve () (emit (Completed None (num p)) (emit (Log ''debug'' ''installed'') w))"

definition link_file_failed :: "payload \<Rightarrow> err \<Rightarrow> unit io" where
  "link_file_failed p e w =
     resolve ()
       (emit (Completed (Some e) (num p))
          (if code e = Some ''EISDIR'' then emit (Report ''not-supported'') w
           else emit (Log ''error'' ''failed to install symlink'') w))"

definition link_file :: "fsenv \<Rightarrow> payload \<Rightarrow> world \<Rightarrow> world" where
  "link_file env p w =
     snd (catch_io
            (then_io
               (then_io
                  (then_io (fs_ensureDir env (dirname env (destination p)))
                     (link_file_prepare env p))
                  (\<lambda>_. link_file_symlink env p))
               (\<lambda>_. link_file_installed p))
            (link_file_failed p) w)"

definition remove_link :: "fsenv \<Rightarrow> payload \<Rightarrow> world \<Rightarrow> world" where
  "remove_link env p w =
     snd (catch_io
            (then_io
               (then_io (doFS (fs_lstat env (destination p)) 5)
                  (\<lambda>stats. if isSymbolicLink stats
                           then doFS (fs_remove env (destination p)) 5
                           else resolve ()))
               (\<lambda>_ w'. resolve () (emit (Completed None (num p)) w')))
            (\<lambda>e w'. resolve ()
               (emit (Completed (Some \<lparr>cls = OtherError, code = code e, message = message e\<rparr>)
                        (num p)) w')) w)"

definition w0 :: world where
  "w0 = \<lparr>calls = [], emitted = [], clock = 0\<rparr>"

subsection \<open>Reading the trace of a retried call\<close>

text \<open>
  \<open>retry_failure r\<close>: the outcome \<open>r\<close> is a failure that \<open>doFS\<close> retries.
  \<open>attempts res base n\<close>: with the outcomes \<open>res\<close> from call number \<open>base\<close> on,
  a call under \<open>doFS\<close> with its default of 5 retries is made exactly \<open>n\<close> times:
  every attempt but the last fails with a code of \<open>RETRY_ERRORS\<close>, and the last
  one is the sixth or does not fail that way.
\<close>

definition retry_failure :: "err + 'a \<Rightarrow> bool" where
  "retry_failure r = (case r of Inl e \<Rightarrow> retryable e | Inr _ \<Rightarrow> False)"

definition attempts :: "(nat \<Rightarrow> err + 'a) \<Rightarrow> nat \<Rightarrow> nat \<Rightarrow> bool" where
  "attempts res base n =
     (1 \<le> n \<and> n \<le> 6 \<and> (\<forall>i<n - 1. retry_failure (res (base + i))) \<and>
      (n < 6 \<longrightarrow> \<not> retry_failure (res (base + n - 1))))"

fun isCompleted :: "message \<Rightarrow> bool" where
  "isCompleted (Completed e n) = True"
| "isCompleted m = False"

definition err_of :: "err + 'a \<Rightarrow> err option" where
  "err_of r = (case r of Inl e \<Rightarrow> Some e | Inr _ \<Rightarrow> None)"

subsection \<open>Sample environments of the worker\<close>

text \<open>Two concrete file systems for evaluating the handlers: one where every call
  succeeds and the destination is a symbolic link, one where the destination directory
  exists, clearing the destination finds nothing (\<^verbatim>\<open>ENOENT\<close>), the first
  \<^verbatim>\<open>symlink\<close> is busy once and then finds the destination present.\<close>

definition env_ok :: fsenv where
  "env_ok = \<lparr>platform = ''linux'', dirname = (\<lambda>p. ''/game/Data''),
     join = (\<lambda>a b. a @ ''/'' @ b),
     ensureDir_res = (\<lambda>n d. Inr None), writeFile_res = (\<lambda>n p t. Inr ()),
     remove_res = (\<lambda>n p. Inr ()), symlink_res = (\<lambda>n s d. Inr ()),
     lstat_res = (\<lambda>n p. Inr \<lparr>isSymbolicLink = (p = ''/game/Data/fileA.txt'')\<rparr>)\<rparr>"

definition env_stale :: fsenv where
  "env_stale = \<lparr>platform = ''linux'', dirname = (\<lambda>p. ''/game/Data''),
     join = (\<lambda>a b. a @ ''/'' @ b),
     ensureDir_res = (\<lambda>n d. Inr None), writeFile_res = (\<lambda>n p t. Inr ()),
     remove_res = (\<lambda>n p. if n = 1 then Inl (fsError ''ENOENT'') else Inr ()),
     symlink_res = (\<lambda>n s d. if n = 2 then Inl (fsError ''EBUSY'')
                             else if n = 3 then Inl (fsError ''EEXIST'') else Inr ()),
     lstat_res = (\<lambda>n p. Inr \<lparr>isSymbolicLink = False\<rparr>)\<rparr>"

definition p_fileA :: payload where
  "p_fileA = \<lparr>source = ''/staging/modA/fileA.txt'', destination = ''/game/Data/fileA.txt'',
              num = 7\<rparr>"

definition busy_twice :: "nat \<Rightarrow> err + unit" where
  "busy_twice n = (if n < 2 then Inl (fsError ''EBUSY'') else Inr ())"

section \<open>The deployment orchestrator\<close>

subsection \<open>State, actions and effects\<close>

text \<open>
  The part of the application state the handlers read. \<open>mods\<close> is the mod catalog
  \<^verbatim>\<open>state.persistent.mods\<close>, keyed by game and then by mod id.
\<close>

record imod =
  mod_id :: string
  mod_state :: string
  installationPath :: "string option"
  mod_type :: "string option"

record discovery =
  disc_path :: "string option"

datatype last_active = ProfileId string | ProfileRef "string option"

record istate =
  instanceId :: string
  mods :: "string \<rightharpoonup> (string \<rightharpoonup> imod)"
  discovered :: "string \<rightharpoonup> discovery"
  activator_setting :: "string \<rightharpoonup> string"
  lastActiveProfile :: "string \<rightharpoonup> last_active"

datatype action =
    SetModEnabled "string option" string bool
  | StartActivity string string
  | StopActivity string string
  | RemoveMod string string

text \<open>
  Calls to collaborators that are not part of this code: the deployment method, the
  activation store, the file system wrapper and the event bus. Each is logged and
  answered by the environment; none of them dispatches to the store.
\<close>

datatype extcall =
    ReadFileAsync string
  | RemoveAsync string
  | GetNormalizeFunc string
  | LoadActivation "string option" string string string
  | Prepare string string bool
  | Deactivate string string string
  | Cancel string string string string
  | Finalize string string string string
  | SaveActivation "string option" string string string string
  | PrePurge string string
  | Purge string string string
  | PostPurge string
  | EmitDeployMods

datatype effect =
    Dispatch action
  | Callback "err option"
  | Call extcall
  | ShowDialog string string string "string list"
  | ErrorNotification string string "bool option"

record oworld =
  store :: istate
  effects :: "effect list"

text \<open>A promise is fulfilled, rejected, or never settled.\<close>

datatype 'a outcome = Fulfilled 'a | Rejected err | Pending

type_synonym 'a prom = "oworld \<Rightarrow> 'a outcome \<times> oworld"

datatype json =
    JNull
  | JBool bool
  | JNumber int
  | JString string
  | JArray "json list"
  | JObject "(string \<times> json) list"

text \<open>A deployment method as this code sees it: its id, and whether it has the optional
  method \<^verbatim>\<open>cancel\<close>. Its other methods are calls answered by the environment.\<close>

record activator =
  act_id :: string
  has_cancel :: bool

text \<open>
  The environment: \<open>call_res\<close> and \<open>readFile_res\<close> give the outcome of the call made
  when \<open>n\<close> effects have happened, \<open>dialog_res\<close> the action the user picks in a
  dialog (every dialog is answered). The other fields are the functions this code
  imports: \<^verbatim>\<open>JSON.parse\<close>, \<^verbatim>\<open>path.join\<close>, the selector
  \<^verbatim>\<open>installPathForGame\<close>, \<^verbatim>\<open>getGame(gameMode).getModPaths\<close> (every discovered
  game is taken to be known to \<^verbatim>\<open>getGame\<close>), \<^verbatim>\<open>allTypesSupported\<close>,
  \<^verbatim>\<open>genSubDirFunc(game)\<close> and \<^verbatim>\<open>truthy\<close>.
\<close>

record oenv =
  call_res :: "nat \<Rightarrow> extcall \<Rightarrow> unit outcome"
  readFile_res :: "nat \<Rightarrow> string \<Rightarrow> string outcome"
  dialog_res :: "nat \<Rightarrow> string \<Rightarrow> string \<Rightarrow> string"
  JSON_parse :: "string \<Rightarrow> err + json"
  path_join :: "string \<Rightarrow> string \<Rightarrow> string"
  installPathForGame :: "istate \<Rightarrow> string \<Rightarrow> string"
  getModPaths :: "string \<Rightarrow> string \<Rightarrow> (string \<times> string) list"
  allTypesSupported :: "activator \<Rightarrow> istate \<Rightarrow> string \<Rightarrow> string list \<Rightarrow> string option"
  subdir :: "imod \<Rightarrow> string"
  truthy :: "string option \<Rightarrow> bool"

text \<open>Modelled from the spec: the reducer of the mod catalog (actions/mods and its
  reducer are not under src/). Removing a mod deletes its catalog entry; enabling a mod
  in a profile and the activity markers are kept in other branches of the state.\<close>

fun reducer :: "action \<Rightarrow> istate \<Rightarrow> istate" where
  "reducer (RemoveMod g m) st =
     (case mods st g of
        None \<Rightarrow> st
      | Some ms \<Rightarrow> st\<lparr>mods := (mods st)(g \<mapsto> ms(m := None))\<rparr>)"
| "reducer a st = st"

definition dispatch :: "action \<Rightarrow> oworld \<Rightarrow> oworld" where
  "dispatch a w = w\<lparr>store := reducer a (store w), effects := effects w @ [Dispatch a]\<rparr>"

definition perform :: "effect \<Rightarrow> oworld \<Rightarrow> oworld" where
  "perform x w = w\<lparr>effects := effects w @ [x]\<rparr>"

definition ext :: "oenv \<Rightarrow> extcall \<Rightarrow> unit prom" where
  "ext env c w = (call_res env (length (effects w)) c, perform (Call c) w)"

definition readFileAsync :: "oenv \<Rightarrow> string \<Rightarrow> string prom" where
  "readFileAsync env p w =
     (readFile_res env (length (effects w)) p, perform (Call (ReadFileAsync p)) w)"

definition showDialog :: "oenv \<Rightarrow> string \<Rightarrow> string \<Rightarrow> string \<Rightarrow> string list \<Rightarrow> string prom" where
  "showDialog env ty title txt labels w =
     (Fulfilled (dialog_res env (length (effects w)) title txt),
      perform (ShowDialog ty title txt labels) w)"

definition showErrorNotification :: "string \<Rightarrow> string \<Rightarrow> bool option \<Rightarrow> unit prom" where
  "showErrorNotification title detail allowReport w =
     (Fulfilled (), perform (ErrorNotification title detail allowReport) w)"

subsection \<open>Promise chains (bluebird)\<close>

definition resolve_p :: "'a \<Rightarrow> 'a prom" where
  "resolve_p v w = (Fulfilled v, w)"

definition reject_p :: "err \<Rightarrow> 'a prom" where
  "reject_p e w = (Rejected e, w)"

definition then_p :: "'a prom \<Rightarrow> ('a \<Rightarrow> 'b prom) \<Rightarrow> 'b prom" where
  "then_p p f w =
     (case p w of
        (Fulfilled v, w') \<Rightarrow> f v w'
      | (Rejected e, w') \<Rightarrow> (Rejected e, w')
      | (Pending, w') \<Rightarrow> (Pending, w'))"

text \<open>\<^verbatim>\<open>.catch(handler)\<close>, \<^verbatim>\<open>.catch(Class, handler)\<close> and
  \<^verbatim>\<open>.catch({code: k}, handler)\<close>: the handler runs when the promise is rejected and
  the filter, if any, matches the error.\<close>

definition catch_if :: "(err \<Rightarrow> bool) \<Rightarrow> 'a prom \<Rightarrow> (err \<Rightarrow> 'a prom) \<Rightarrow> 'a prom" where
  "catch_if f p h w =
     (case p w of
        (Rejected e, w') \<Rightarrow> if f e then h e w' else (Rejected e, w')
      | (Fulfilled v, w') \<Rightarrow> (Fulfilled v, w')
      | (Pending, w') \<Rightarrow> (Pending, w'))"

definition catch_p :: "'a prom \<Rightarrow> (err \<Rightarrow> 'a prom) \<Rightarrow> 'a prom" where
  "catch_p = catch_if (\<lambda>e. True)"

definition catch_class :: "errclass \<Rightarrow> 'a prom \<Rightarrow> (err \<Rightarrow> 'a prom) \<Rightarrow> 'a prom" where
  "catch_class c = catch_if (\<lambda>e. cls e = c)"

definition catch_code :: "string \<Rightarrow> 'a prom \<Rightarrow> (err \<Rightarrow> 'a prom) \<Rightarrow> 'a prom" where
  "catch_code k = catch_if (\<lambda>e. code e = Some k)"

text \<open>\<^verbatim>\<open>.tapCatch(handler)\<close> and \<^verbatim>\<open>.finally(handler)\<close> keep the outcome of the
  promise, unless the handler itself is rejected or never settles.\<close>

definition after :: "'a outcome \<Rightarrow> unit prom \<Rightarrow> 'a prom" where
  "after r f w =
     (case f w of
        (Fulfilled _, w') \<Rightarrow> (r, w')
      | (Rejected e, w') \<Rightarrow> (Rejected e, w')
      | (Pending, w') \<Rightarrow> (Pending, w'))"

definition tapCatch :: "'a prom \<Rightarrow> unit prom \<Rightarrow> 'a prom" where
  "tapCatch p f w =
     (case p w of
        (Rejected e, w') \<Rightarrow> after (Rejected e) f w'
      | (Fulfilled v, w') \<Rightarrow> (Fulfilled v, w')
      | (Pending, w') \<Rightarrow> (Pending, w'))"

definition finally_p :: "'a prom \<Rightarrow> unit prom \<Rightarrow> 'a prom" where
  "finally_p p f w =
     (case p w of
        (Pending, w') \<Rightarrow> (Pending, w')
      | (r, w') \<Rightarrow> after r f w')"

fun mapSeries :: "'a list \<Rightarrow> ('a \<Rightarrow> unit prom) \<Rightarrow> unit prom" where
  "mapSeries [] f = resolve_p ()"
| "mapSeries (x # xs) f = then_p (f x) (\<lambda>_. mapSeries xs f)"

subsection \<open>validateStagingTag\<close>

text \<open>\<^verbatim>\<open>tag.instance\<close>: reading a property of \<^verbatim>\<open>null\<close> throws, of any other value
  that has no such property gives \<^verbatim>\<open>undefined\<close> (\<open>None\<close>); in a parsed object the last
  of several equal keys counts.\<close>

definition get_instance :: "json \<Rightarrow> err + json option" where
  "get_instance tag =
     (case tag of
        JNull \<Rightarrow> Inl (mkErr OtherError None ''Cannot read property 'instance' of null'')
      | JObject kvs \<Rightarrow> Inr (map_of (rev kvs) ''instance'')
      | _ \<Rightarrow> Inr None)"

definition userCanceled :: err where
  "userCanceled = mkErr UserCanceled None ''canceled by user''"

definition DIFFERENT_INSTANCE_TEXT :: string where
  "DIFFERENT_INSTANCE_TEXT =
     ''This is a staging folder but it appears to belong to a different Vortex '' @
     ''instance. If you're using Vortex in shared and \"regular\" mod, do not use '' @
     ''the same staging folder for both!''"

definition NOT_MARKED_TEXT :: string where
  "NOT_MARKED_TEXT =
     ''This directory is not marked as a staging folder. '' @
     ''Are you *sure* it's the right directory?''"

definition validateStagingTag :: "oenv \<Rightarrow> string \<Rightarrow> unit prom" where
  "validateStagingTag env tagPath =
     catch_p
       (then_p (readFileAsync env tagPath)
          (\<lambda>data w.
             let state = store w in
             case JSON_parse env data of
               Inl e \<Rightarrow> reject_p e w
             | Inr tag \<Rightarrow>
                 (case get_instance tag of
                    Inl e \<Rightarrow> reject_p e w
                  | Inr inst \<Rightarrow>
                      if inst \<noteq> Some (JString (instanceId state))
                      then then_p
                             (showDialog env ''question'' ''Confirm'' DIFFERENT_INSTANCE_TEXT
                                [''Cancel'', ''Continue''])
                             (\<lambda>result. if result = ''Cancel'' then reject_p userCanceled
                                       else resolve_p ()) w
                      else resolve_p () w)))
       (\<lambda>_. then_p
               (showDialog env ''question'' ''Confirm'' NOT_MARKED_TEXT
                  [''Cancel'', ''I'm sure''])
               (\<lambda>result. if result = ''Cancel'' then reject_p userCanceled
                         else resolve_p ()))"

subsection \<open>Helpers\<close>

text \<open>\<^verbatim>\<open>Array.prototype.indexOf\<close>: the first position of the value, or -1.\<close>

fun indexOf :: "'a list \<Rightarrow> 'a \<Rightarrow> int" where
  "indexOf [] v = -1"
| "indexOf (x # xs) v = (if x = v then 0 else let i = indexOf xs v in if i = -1 then -1 else i + 1)"

text \<open>\<^verbatim>\<open>s || ''\<close> for an optional string.\<close>

definition or_empty :: "string option \<Rightarrow> string" where
  "or_empty s = (case s of None \<Rightarrow> [] | Some v \<Rightarrow> v)"

definition typeError :: err where
  "typeError = mkErr OtherError None ''TypeError''"

subsection \<open>onGameModeActivated: purging with the old deployment method\<close>

text \<open>
  The chain that \<^verbatim>\<open>onGameModeActivated\<close> puts after \<^verbatim>\<open>oldInit\<close> when the
  configured deployment method is replaced: \<^verbatim>\<open>prePurge\<close>, one \<^verbatim>\<open>purge\<close> per mod
  type in turn, the three handlers for a failed purge, and \<^verbatim>\<open>postPurge\<close> at the end.
\<close>

definition purgeFailed :: "err \<Rightarrow> unit prom" where
  "purgeFailed e =
     showErrorNotification ''Purge failed'' (message e)
       (Some (indexOf [Some ''ENOENT'', Some ''ENOTFOUND''] (code e) \<noteq> -1))"

definition initProm_purge ::
    "oenv \<Rightarrow> activator \<Rightarrow> string \<Rightarrow> (string \<times> string) list \<Rightarrow> unit prom \<Rightarrow> unit prom" where
  "initProm_purge env oldActivator instPath modPaths oldInit =
     finally_p
       (catch_class ProcessCanceled
          (then_p
             (then_p oldInit (\<lambda>_. ext env (PrePurge (act_id oldActivator) instPath)))
             (\<lambda>_. catch_p
                    (catch_class TemporaryError
                       (catch_class ProcessCanceled
                          (then_p
                             (mapSeries (map fst modPaths)
                                (\<lambda>typeId. case map_of modPaths typeId of
                                             None \<Rightarrow> reject_p typeError
                                           | Some p \<Rightarrow>
                                               ext env (Purge (act_id oldActivator) instPath p)))
                             (\<lambda>_. resolve_p ()))
                          (\<lambda>_. resolve_p ()))
                       (\<lambda>e. showErrorNotification ''Purge failed, please try again''
                               (message e) (Some False)))
                    purgeFailed))
          (\<lambda>_. resolve_p ()))
       (ext env (PostPurge (act_id oldActivator)))"

subsection \<open>undeploy\<close>

definition processCanceled :: "string \<Rightarrow> err" where
  "processCanceled msg = mkErr ProcessCanceled None msg"

definition find_activator ::
    "oenv \<Rightarrow> istate \<Rightarrow> activator list \<Rightarrow> string \<Rightarrow> string list \<Rightarrow> activator option" where
  "find_activator env state activators gameMode modTypes =
     (case activator_setting state gameMode of
        Some activatorId \<Rightarrow> List.find (\<lambda>act. act_id act = activatorId) activators
      | None \<Rightarrow>
          List.find (\<lambda>act. allTypesSupported env act state gameMode modTypes = None) activators)"

text \<open>The promise chain at the end of \<^verbatim>\<open>undeploy\<close>: one cycle of the deployment
  method for the files of one mod. The handler of \<^verbatim>\<open>.tapCatch\<close> calls
  \<^verbatim>\<open>activator.cancel\<close>, when the method has one, and returns nothing: the call is
  made, what becomes of it is not waited for, and the rejection that led there passes on
  as it is.\<close>

definition undeploy_cycle ::
    "oenv \<Rightarrow> activator \<Rightarrow> string \<Rightarrow> imod \<Rightarrow> istate \<Rightarrow> string \<Rightarrow> string \<Rightarrow> unit prom" where
  "undeploy_cycle env act gameMode md state deployPath stagingPath =
     then_p
       (then_p
          (tapCatch
             (then_p
                (then_p
                   (then_p (ext env (GetNormalizeFunc deployPath))
                      (\<lambda>_. ext env (LoadActivation (mod_type md) deployPath stagingPath
                              (act_id act))))
                   (\<lambda>_. ext env (Prepare (act_id act) deployPath False)))
                (\<lambda>_. case installationPath md of
                        None \<Rightarrow> reject_p typeError
                      | Some ip \<Rightarrow>
                          ext env (Deactivate (act_id act) (path_join env stagingPath ip)
                            (subdir env md))))
             (\<lambda>w. (Fulfilled (),
                   if has_cancel act
                   then perform (Call (Cancel (act_id act) gameMode deployPath stagingPath)) w
                   else w)))
          (\<lambda>_. ext env (Finalize (act_id act) gameMode deployPath stagingPath)))
       (\<lambda>_. ext env (SaveActivation (mod_type md) (instanceId state) deployPath stagingPath
               (act_id act)))"

definition undeploy :: "oenv \<Rightarrow> activator list \<Rightarrow> string \<Rightarrow> imod \<Rightarrow> unit prom" where
  "undeploy env activators gameMode md w =
     (let state = store w in
      case discovered state gameMode of
        None \<Rightarrow> resolve_p () w
      | Some disc \<Rightarrow>
          (case disc_path disc of
             None \<Rightarrow> resolve_p () w
           | Some dpath \<Rightarrow>
               (let modPaths = getModPaths env gameMode dpath;
                    modTypes = map fst modPaths
                in case find_activator env state activators gameMode modTypes of
                     None \<Rightarrow> reject_p (processCanceled ''No deployment method active'') w
                   | Some act \<Rightarrow>
                       (let stagingPath = installPathForGame env state gameMode
                        in case map_of modPaths (or_empty (mod_type md)) of
                             None \<Rightarrow> resolve_p () w
                           | Some deployPath \<Rightarrow>
                               undeploy_cycle env act gameMode md state deployPath
                                 stagingPath w))))"

subsection \<open>onRemoveMod\<close>

definition MOD_NOT_FOUND_TEXT :: string where
  "MOD_NOT_FOUND_TEXT =
     ''The mod you're removing has already been deleted on disk.'' @ [CHR 0x0A] @
     ''This makes it impossible for Vortex to cleanly undeploy the mod '' @
     ''so you may be left with files left over in your game directory.'' @ [CHR 0x0A] @
     ''You should allow Vortex to do a full deployment now to try and '' @
     ''clean up as best as possible.'' @ [CHR 0x0A] @
     ''The mod will be removed after deployment is finished.''"

definition undeployMod :: "oenv \<Rightarrow> activator list \<Rightarrow> string \<Rightarrow> imod \<Rightarrow> unit prom" where
  "undeployMod env activators gameMode md =
     (if installationPath md = None then resolve_p ()
      else catch_code ''ENOTFOUND'' (undeploy env activators gameMode md)
             (\<lambda>_. then_p
                     (showDialog env ''error'' ''Mod not found'' MOD_NOT_FOUND_TEXT
                        [''Ignore'', ''Deploy''])
                     (\<lambda>result. if result = ''Deploy'' then ext env EmitDeployMods
                               else resolve_p ())))"

text \<open>The first \<^verbatim>\<open>.then\<close> after \<^verbatim>\<open>undeployMod()\<close>: delete the staged files.\<close>

definition removeStaged :: "oenv \<Rightarrow> string \<Rightarrow> imod \<Rightarrow> unit prom" where
  "removeStaged env installPth md =
     (if truthy env (installationPath md)
      then case installationPath md of
             None \<Rightarrow> reject_p typeError
           | Some ip \<Rightarrow>
               let fullModPath = path_join env installPth ip
               in catch_p
                    (catch_code ''ENOTEMPTY'' (ext env (RemoveAsync fullModPath))
                       (\<lambda>_. ext env (RemoveAsync fullModPath)))
                    (\<lambda>e. if code e = Some ''ENOENT'' then resolve_p () else reject_p e)
      else resolve_p ())"

text \<open>The optional parameter \<^verbatim>\<open>callback\<close> is the flag \<open>has_callback\<close>; calling it
  is the effect \<open>Callback\<close>. \<open>callback_or\<close> is the recurring
  \<^verbatim>\<open>if (callback !== undefined) callback(e) else ...\<close>.\<close>

definition callback_or :: "bool \<Rightarrow> err option \<Rightarrow> (oworld \<Rightarrow> oworld) \<Rightarrow> oworld \<Rightarrow> oworld" where
  "callback_or has_callback e otherwise w =
     (if has_callback then perform (Callback e) w else otherwise w)"

definition removeChain ::
    "oenv \<Rightarrow> activator list \<Rightarrow> string \<Rightarrow> string \<Rightarrow> bool \<Rightarrow> string \<Rightarrow> imod \<Rightarrow> unit prom" where
  "removeChain env activators gameMode modId has_callback installPth md =
     finally_p
       (catch_p
          (catch_class UserCanceled
             (catch_class ProcessCanceled
                (catch_class TemporaryError
                   (then_p
                      (then_p (undeployMod env activators gameMode md)
                         (\<lambda>_. removeStaged env installPth md))
                      (\<lambda>_ w. (Fulfilled (),
                              callback_or has_callback None (\<lambda>w'. w')
                                (dispatch (RemoveMod gameMode (mod_id md)) w))))
                   (\<lambda>e w. (Fulfilled (),
                           callback_or has_callback (Some e)
                             (perform (ErrorNotification
                                ''Failed to undeploy mod, please try again'' (message e)
                                (Some False))) w)))
                (\<lambda>e w. (Fulfilled (),
                        callback_or has_callback (Some e)
                          (perform (ErrorNotification ''Failed to remove mod'' (message e)
                             (Some False))) w)))
             (\<lambda>e w. (Fulfilled (), callback_or has_callback (Some e) (\<lambda>w'. w') w)))
          (\<lambda>e w. (Fulfilled (),
                  callback_or has_callback (Some e)
                    (perform (ErrorNotification ''Failed to remove mod'' (message e) None)) w)))
       (\<lambda>w. (Fulfilled (), dispatch (StopActivity ''mods'' (''removing_'' @ modId)) w))"

definition profileId_of :: "istate \<Rightarrow> string \<Rightarrow> string option" where
  "profileId_of state gameMode =
     (case lastActiveProfile state gameMode of
        None \<Rightarrow> None
      | Some (ProfileId s) \<Rightarrow> Some s
      | Some (ProfileRef r) \<Rightarrow> r)"

definition CANT_DELETE :: string where
  "CANT_DELETE = ''Can't delete mod during download or install''"

definition getSafe_modState :: "istate \<Rightarrow> string \<Rightarrow> string \<Rightarrow> string option" where
  "getSafe_modState state gameMode modId =
     (case mods state gameMode of
        None \<Rightarrow> None
      | Some ms \<Rightarrow> map_option mod_state (ms modId))"

definition onRemoveMod ::
    "oenv \<Rightarrow> activator list \<Rightarrow> string \<Rightarrow> string \<Rightarrow> bool \<Rightarrow> oworld \<Rightarrow> oworld" where
  "onRemoveMod env activators gameMode modId has_callback w =
     (let state = store w;
          modState = getSafe_modState state gameMode modId
      in if indexOf [Some ''downloaded'', Some ''installed''] modState = -1
         then callback_or has_callback
                (Some (processCanceled CANT_DELETE))
                (\<lambda>w'. w') w
         else
           let profileId = profileId_of state gameMode;
               w1 = dispatch (SetModEnabled profileId modId False) w;
               installPth = installPathForGame env state gameMode
           in case mods state gameMode of
                None \<Rightarrow>
                  callback_or has_callback
                    (Some typeError)
                    (perform (ErrorNotification ''Failed to remove mod (not found)''
                       (message typeError) None)) w1
              | Some ms \<Rightarrow>
                  (case ms modId of
                     None \<Rightarrow> callback_or has_callback None (\<lambda>w'. w') w1
                   | Some md \<Rightarrow>
                       snd (removeChain env activators gameMode modId has_callback installPth md
                              (dispatch (StartActivity ''mods'' (''removing_'' @ modId)) w1))))"

subsection \<open>Reading the effects of a promise\<close>

text \<open>\<open>only P p\<close>: whatever the world, running \<open>p\<close> leaves the store as it is and
  adds to the effects only ones that satisfy \<open>P\<close>.\<close>

definition only :: "(effect \<Rightarrow> bool) \<Rightarrow> 'a prom \<Rightarrow> bool" where
  "only P p =
     (\<forall>w. store (snd (p w)) = store w \<and>
          (\<exists>xs. effects (snd (p w)) = effects w @ xs \<and> list_all P xs))"

fun isDeployCall :: "effect \<Rightarrow> bool" where
  "isDeployCall (Call (GetNormalizeFunc p)) = True"
| "isDeployCall (Call (LoadActivation t d s a)) = True"
| "isDeployCall (Call (Prepare a d c)) = True"
| "isDeployCall (Call (Deactivate a p s)) = True"
| "isDeployCall (Call (Cancel a g d s)) = True"
| "isDeployCall (Call (Finalize a g d s)) = True"
| "isDeployCall (Call (SaveActivation t i d s a)) = True"
| "isDeployCall x = False"


fun isRemoveAsync :: "effect \<Rightarrow> bool" where
  "isRemoveAsync (Call (RemoveAsync p)) = True"
| "isRemoveAsync x = False"

fun isDialog :: "effect \<Rightarrow> bool" where
  "isDialog (ShowDialog ty title txt labels) = True"
| "isDialog x = False"

fun isReport :: "effect \<Rightarrow> bool" where
  "isReport (Callback e) = True"
| "isReport (ErrorNotification title detail allowReport) = True"
| "isReport x = False"

fun isRemoveMod :: "effect \<Rightarrow> bool" where
  "isRemoveMod (Dispatch (RemoveMod g m)) = True"
| "isRemoveMod x = False"

text \<open>The world in which the promise chain of \<open>onRemoveMod\<close> starts: the mod has been
  disabled in the profile and the activity has been announced.\<close>

definition removal_started :: "string \<Rightarrow> string \<Rightarrow> oworld \<Rightarrow> oworld" where
  "removal_started gameMode modId w =
     dispatch (StartActivity ''mods'' (''removing_'' @ modId))
       (dispatch (SetModEnabled (profileId_of (store w) gameMode) modId False) w)"

subsection \<open>Sample inputs of the orchestrator\<close>

definition mod_m1 :: imod where
  "mod_m1 = \<lparr>mod_id = ''m1'', mod_state = ''installed'', installationPath = Some ''modA'',
             mod_type = Some []\<rparr>"

definition mod_m2 :: imod where
  "mod_m2 = \<lparr>mod_id = ''m2'', mod_state = ''installing'', installationPath = Some ''modB'',
             mod_type = Some []\<rparr>"

definition mods_skyrim :: "string \<rightharpoonup> imod" where
  "mods_skyrim = [''m1'' \<mapsto> mod_m1, ''m2'' \<mapsto> mod_m2]"

definition st_me :: istate where
  "st_me = \<lparr>instanceId = ''me'',
            mods = [''skyrim'' \<mapsto> mods_skyrim],
            discovered = [''skyrim'' \<mapsto> \<lparr>disc_path = Some ''/game''\<rparr>],
            activator_setting = [''skyrim'' \<mapsto> ''symlink_activator''],
            lastActiveProfile = [''skyrim'' \<mapsto> ProfileId ''p1'']\<rparr>"

definition ow_me :: oworld where
  "ow_me = \<lparr>store = st_me, effects = []\<rparr>"

definition symlink_activator :: activator where
  "symlink_activator = \<lparr>act_id = ''symlink_activator'', has_cancel = True\<rparr>"

text \<open>An environment in which every collaborator succeeds, apart from the calls that
  \<open>failing\<close> answers otherwise; the tag file names the instance \<open>other\<close>; the user
  answers a dialog by its text with \<open>answer\<close>.\<close>

definition env_with :: "(extcall \<Rightarrow> unit outcome option) \<Rightarrow> (string \<Rightarrow> string) \<Rightarrow> oenv" where
  "env_with failing answer =
     \<lparr>call_res = (\<lambda>n c. case failing c of None \<Rightarrow> Fulfilled () | Some r \<Rightarrow> r),
      readFile_res = (\<lambda>n p. Fulfilled ''{\"instance\":\"other\",\"game\":\"skyrim\"}''),
      dialog_res = (\<lambda>n title txt. answer txt),
      JSON_parse = (\<lambda>s. Inr (JObject [(''instance'', JString ''other''),
                                        (''game'', JString ''skyrim'')])),
      path_join = (\<lambda>a b. a @ ''/'' @ b),
      installPathForGame = (\<lambda>st g. ''/staging''),
      getModPaths = (\<lambda>g p. [([], ''/game/Data'')]),
      allTypesSupported = (\<lambda>a st g ts. None),
      subdir = (\<lambda>m. []),
      truthy = (\<lambda>s. s \<noteq> None \<and> s \<noteq> Some [])\<rparr>"

definition purge_fails :: "string \<Rightarrow> extcall \<Rightarrow> unit outcome option" where
  "purge_fails k c = (case c of Purge a i p \<Rightarrow> Some (Rejected (fsError k)) | _ \<Rightarrow> None)"


text \<open>The deployment method fails with \<open>k\<close> while deactivating, and its
  \<^verbatim>\<open>cancel\<close> is rejected with \<open>k'\<close>.\<close>

definition cancel_fails_too :: "string \<Rightarrow> string \<Rightarrow> extcall \<Rightarrow> unit outcome option" where
  "cancel_fails_too k k' c =
     (case c of
        Deactivate a p s \<Rightarrow> Some (Rejected (fsError k))
      | Cancel a g d s \<Rightarrow> Some (Rejected (fsError k'))
      | _ \<Rightarrow> None)"

definition remove_fails :: "string \<Rightarrow> extcall \<Rightarrow> unit outcome option" where
  "remove_fails k c = (case c of RemoveAsync p \<Rightarrow> Some (Rejected (fsError k)) | _ \<Rightarrow> None)"

definition nothing_fails :: "extcall \<Rightarrow> unit outcome option" where
  "nothing_fails c = None"

definition decline_first :: "string \<Rightarrow> string" where
  "decline_first txt = (if txt = DIFFERENT_INSTANCE_TEXT then ''Cancel'' else ''I'm sure'')"

definition always_cancel :: "string \<Rightarrow> string" where
  "always_cancel txt = ''Cancel''"

definition always_ignore :: "string \<Rightarrow> string" where
  "always_ignore txt = ''Ignore''"

definition env_notempty_once :: oenv where
  "env_notempty_once =
     (env_with nothing_fails always_ignore)
       \<lparr>call_res := (\<lambda>n c. if n = 0 \<and> c = RemoveAsync ''/staging/modA''
                           then Rejected (fsError ''ENOTEMPTY'') else Fulfilled ())\<rparr>"

section \<open>Validation of installed files (util/fileValidation)\<close>

text \<open>
  The file system as \<open>validateFiles\<close> sees it: \<open>read_file\<close> answers a read of a
  path with the content or an error (the files do not change during a validation),
  \<open>md5_hex\<close> is the digest of \<^verbatim>\<open>crypto\<close>, \<open>v_join\<close> is \<^verbatim>\<open>path.join\<close>.
  The files of the list are read concurrently: \<open>sched\<close> gives the order in which the
  reads issued for a list of names complete.
\<close>

record venv =
  read_file :: "string \<Rightarrow> err + string"
  md5_hex :: "string \<Rightarrow> string"
  v_join :: "string \<Rightarrow> string \<Rightarrow> string"
  sched :: "string list \<Rightarrow> string list"

record vresult =
  missing :: "string list"
  changed :: "string list"

text \<open>\<^verbatim>\<open>String.prototype.split\<close> with a one-character separator: the pieces between
  the separators, at least one piece.\<close>

fun split_on :: "char \<Rightarrow> string \<Rightarrow> string list" where
  "split_on c [] = [] # []"
| "split_on c (x # xs) =
     (if x = c then [] # split_on c xs
      else (case split_on c xs of
              [] \<Rightarrow> [x] # []
            | y # ys \<Rightarrow> (x # y) # ys))"

text \<open>A plain object as the list of its own properties in the order of their creation.
  \<^verbatim>\<open>prev[key] = hash\<close> overwrites the value of a property that is there and adds one
  that is not; with the key \<^verbatim>\<open>__proto__\<close> and a value that is no object it is the
  inherited setter that runs, and no property is created.\<close>

fun obj_set :: "(string \<times> 'v) list \<Rightarrow> string \<Rightarrow> 'v \<Rightarrow> (string \<times> 'v) list" where
  "obj_set [] k v = [(k, v)]"
| "obj_set ((k', v') # kvs) k v =
     (if k' = k then (k, v) # kvs else (k', v') # obj_set kvs k v)"

definition obj_assign ::
    "(string \<times> string option) list \<Rightarrow> string \<Rightarrow> string option \<Rightarrow> (string \<times> string option) list" where
  "obj_assign prev key hash = (if key = ''__proto__'' then prev else obj_set prev key hash)"

text \<open>\<^verbatim>\<open>Object.keys\<close>, up to the order: JavaScript lists the names that are array
  indices first. The order of the names has no bearing on the result, since the reads
  complete in the order \<open>sched\<close> gives.\<close>

definition obj_keys :: "(string \<times> 'v) list \<Rightarrow> string list" where
  "obj_keys obj = map fst obj"

definition obj_get :: "(string \<times> string option) list \<Rightarrow> string \<Rightarrow> string option" where
  "obj_get obj k = (case map_of obj k of None \<Rightarrow> None | Some v \<Rightarrow> v)"

definition hash_line ::
    "string \<Rightarrow> (string \<times> string option) list \<Rightarrow> (string \<times> string option) list" where
  "hash_line line prev =
     (case split_on CHR '':'' line of
        [] \<Rightarrow> prev
      | key # rest \<Rightarrow> obj_assign prev key (case rest of [] \<Rightarrow> None | hash # _ \<Rightarrow> Some hash))"

definition readHashList :: "venv \<Rightarrow> string \<Rightarrow> err + (string \<times> string option) list" where
  "readHashList env basePath =
     (case read_file env (v_join env basePath ''md5sums.csv'') of
        Inl e \<Rightarrow> Inl e
      | Inr data \<Rightarrow> Inr (fold hash_line (split_on (CHR 0x0A) data) []))"

definition hashFile :: "venv \<Rightarrow> string \<Rightarrow> err + string" where
  "hashFile env fullPath =
     (case read_file env fullPath of
        Inl e \<Rightarrow> Inl e
      | Inr fileData \<Rightarrow> Inr (md5_hex env fileData))"

text \<open>The body of the \<^verbatim>\<open>async\<close> function mapped over the names: its
  \<^verbatim>\<open>try\<close>/\<^verbatim>\<open>catch\<close> turns a failed read into an entry of \<open>missing\<close>.\<close>

definition validateFile ::
    "venv \<Rightarrow> string \<Rightarrow> (string \<times> string option) list \<Rightarrow> string \<Rightarrow> vresult \<Rightarrow> err + vresult" where
  "validateFile env basePath fileList fileName result =
     (case hashFile env (v_join env basePath fileName) of
        Inr hash \<Rightarrow>
          Inr (if Some hash \<noteq> obj_get fileList fileName
               then result\<lparr>changed := changed result @ [fileName]\<rparr>
               else result)
      | Inl e \<Rightarrow> Inr (result\<lparr>missing := missing result @ [fileName]\<rparr>))"

text \<open>\<^verbatim>\<open>Promise.all\<close>: rejected as soon as one of the promises is.\<close>

fun promise_all :: "('k \<Rightarrow> vresult \<Rightarrow> err + vresult) \<Rightarrow> 'k list \<Rightarrow> vresult \<Rightarrow> err + vresult" where
  "promise_all f [] result = Inr result"
| "promise_all f (k # ks) result =
     (case f k result of
        Inl e \<Rightarrow> Inl e
      | Inr result' \<Rightarrow> promise_all f ks result')"

definition validateFiles :: "venv \<Rightarrow> string \<Rightarrow> (err + vresult) \<times> (string \<times> string) list" where
  "validateFiles env basePath =
     (let (fileList, logged) =
            (case readHashList env basePath of
               Inl e \<Rightarrow> ([], [(''info'', ''not validating vortex files'')])
             | Inr fl \<Rightarrow> (fl, []))
      in (promise_all (validateFile env basePath fileList) (sched env (obj_keys fileList))
            \<lparr>missing = [], changed = []\<rparr>,
          logged))"

text \<open>The list read by \<open>validateFiles\<close>: empty when \<^verbatim>\<open>md5sums.csv\<close> cannot be read.\<close>

definition fileList_of :: "venv \<Rightarrow> string \<Rightarrow> (string \<times> string option) list" where
  "fileList_of env basePath =
     (case readHashList env basePath of Inl e \<Rightarrow> [] | Inr fl \<Rightarrow> fl)"

text \<open>What became of a listed file \<open>k\<close>, read off the file system and the digest
  themselves: the file at \<open>basePath/k\<close> cannot be read; it can be read and the MD5
  digest of its content is not the hash listed for \<open>k\<close>; it can be read and the digest
  of its content is the hash listed for \<open>k\<close>.\<close>

definition unreadable :: "venv \<Rightarrow> string \<Rightarrow> string \<Rightarrow> bool" where
  "unreadable env basePath k =
     (case read_file env (v_join env basePath k) of Inl e \<Rightarrow> True | Inr content \<Rightarrow> False)"

definition hash_differs ::
    "venv \<Rightarrow> string \<Rightarrow> (string \<times> string option) list \<Rightarrow> string \<Rightarrow> bool" where
  "hash_differs env basePath fl k =
     (case read_file env (v_join env basePath k) of
        Inl e \<Rightarrow> False
      | Inr content \<Rightarrow> Some (md5_hex env content) \<noteq> obj_get fl k)"

definition hash_matches ::
    "venv \<Rightarrow> string \<Rightarrow> (string \<times> string option) list \<Rightarrow> string \<Rightarrow> bool" where
  "hash_matches env basePath fl k =
     (case read_file env (v_join env basePath k) of
        Inl e \<Rightarrow> False
      | Inr content \<Rightarrow> Some (md5_hex env content) = obj_get fl k)"

subsection \<open>Sample installation\<close>

definition venv_sample :: venv where
  "venv_sample =
     \<lparr>read_file = (\<lambda>p. if p = ''/app/md5sums.csv''
                         then Inr (''a.js:md5-A'' @ [CHR 0x0A] @ ''b.js:md5-X'' @ [CHR 0x0A] @
                                   ''c.js:md5-C'')
                         else if p = ''/app/a.js'' then Inr ''A''
                         else if p = ''/app/b.js'' then Inr ''B''
                         else Inl (fsError ''ENOENT'')),
      md5_hex = (\<lambda>content. ''md5-'' @ content),
      v_join = (\<lambda>a b. a @ ''/'' @ b),
      sched = rev\<rparr>"

definition venv_nolist :: venv where
  "venv_nolist = venv_sample\<lparr>read_file := (\<lambda>p. Inl (fsError ''ENOENT''))\<rparr>"

section \<open>Properties of the link worker\<close>

lemma doFS_fsop_char:
  "0 \<le> tries \<Longrightarrow> doFS (fsop c res) tries w = (r, w') \<Longrightarrow>
   \<exists>n. 1 \<le> n \<and> n \<le> nat tries + 1 \<and>
       calls w' = calls w @ replicate n c \<and>
       clock w' = clock w + 100 * (n - 1) \<and>
       emitted w' = emitted w \<and>
       r = res (length (calls w) + n - 1) \<and>
       (\<forall>i<n - 1. retry_failure (res (length (calls w) + i))) \<and>
       (n < nat tries + 1 \<longrightarrow> \<not> retry_failure r)"
proof (induction "fsop c res :: 'a io" tries w arbitrary: r w' rule: doFS.induct)
  case (1 tries w)
  let ?w1 = "w\<lparr>calls := calls w @ [c]\<rparr>"
  let ?r0 = "res (length (calls w))"
  have op: "fsop c res w = (?r0, ?w1)" by (simp add: fsop_def)
  show ?case
  proof (cases "retry_failure ?r0 \<and> tries > 0")
    case True
    then obtain e where e: "?r0 = Inl e" "retryable e" "tries > 0"
      by (auto simp: retry_failure_def split: sum.splits)
    have rec: "doFS (fsop c res) (tries - 1) (delayed 100 ?w1) = (r, w')"
      using "1.prems"(2) op e by simp
    have nonneg: "0 \<le> tries - 1" using e by simp
    have cond: "retryable e \<and> 0 < tries" using e by simp
    from "1.hyps"[OF op[symmetric] e(1) cond nonneg rec]
    obtain n where n: "1 \<le> n" "n \<le> nat (tries - 1) + 1"
       "calls w' = calls (delayed 100 ?w1) @ replicate n c"
       "clock w' = clock (delayed 100 ?w1) + 100 * (n - 1)"
       "emitted w' = emitted (delayed 100 ?w1)"
       "r = res (length (calls (delayed 100 ?w1)) + n - 1)"
       "\<forall>i<n - 1. retry_failure (res (length (calls (delayed 100 ?w1)) + i))"
       "n < nat (tries - 1) + 1 \<longrightarrow> \<not> retry_failure r"
      by blast
    have first: "retry_failure ?r0" using True by simp
    have all: "\<forall>i<Suc n - 1. retry_failure (res (length (calls w) + i))"
    proof (intro allI impI)
      fix i assume i: "i < Suc n - 1"
      show "retry_failure (res (length (calls w) + i))"
      proof (cases i)
        case 0 then show ?thesis using first by simp
      next
        case (Suc j)
        then have "j < n - 1" using i by simp
        with n(7) show ?thesis using Suc by (simp add: delayed_def)
      qed
    qed
    show ?thesis
      by (rule exI[of _ "Suc n"], intro conjI all)
         (use n e in \<open>auto simp: delayed_def replicate_app_Cons_same\<close>)
  next
    case False
    then have "doFS (fsop c res) tries w = (?r0, ?w1)"
      using op by (auto simp: retry_failure_def split: sum.splits)
    with "1.prems" have "r = ?r0" "w' = ?w1" by simp_all
    with False "1.prems"(1) show ?thesis
      by (intro exI[of _ 1]) auto
  qed
qed

lemma doFS5:
  assumes "doFS (fsop c res) 5 w = (r, w')"
  shows "\<exists>n. attempts res (length (calls w)) n \<and>
             calls w' = calls w @ replicate n c \<and>
             clock w' = clock w + 100 * (n - 1) \<and>
             emitted w' = emitted w \<and>
             r = res (length (calls w) + n - 1)"
proof -
  from doFS_fsop_char[OF _ assms] obtain n where
    "1 \<le> n" "n \<le> 6" "calls w' = calls w @ replicate n c"
    "clock w' = clock w + 100 * (n - 1)" "emitted w' = emitted w"
    "r = res (length (calls w) + n - 1)"
    "\<forall>i<n - 1. retry_failure (res (length (calls w) + i))"
    "n < 6 \<longrightarrow> \<not> retry_failure r"
    by auto
  then show ?thesis
    by (intro exI[of _ n]) (simp add: attempts_def)
qed

lemma link_file_prepare_trace:
  assumes "link_file_prepare env p created w = (r, w')"
  shows "\<exists>pre ms. calls w' = calls w @ pre \<and>
           Symlink (source p) (destination p) \<notin> set pre \<and>
           emitted w' = emitted w @ ms \<and> set ms \<subseteq> {Log ''debug'' ''created directory''}"
proof (cases created)
  case None
  obtain r1 w1 where r: "doFS (fs_remove env (destination p)) 5 w = (r1, w1)"
    by (cases "doFS (fs_remove env (destination p)) 5 w")
  from doFS5[OF r[unfolded fs_remove_def]] obtain n where n:
    "calls w1 = calls w @ replicate n (Remove (destination p))" "emitted w1 = emitted w" by blast
  have "w' = w1" using assms None r
    by (auto simp: link_file_prepare_def catch_io_def resolve_def reject_def split: sum.splits if_splits)
  then show ?thesis using n
    by - (rule exI[of _ "replicate n (Remove (destination p))"], rule exI[of _ "[]"], auto)
next
  case (Some c)
  let ?w = "emit (Log ''debug'' ''created directory'') w"
  let ?c = "WriteFile (join env c (TAG_NAME env)) TAG_TEXT"
  have r: "doFS (fs_writeFile env (join env c (TAG_NAME env)) TAG_TEXT) 5 ?w = (r, w')"
    using assms Some by (simp add: link_file_prepare_def)
  from doFS5[OF r[unfolded fs_writeFile_def]] obtain n where n:
    "calls w' = calls ?w @ replicate n ?c" "emitted w' = emitted ?w" by blast
  then show ?thesis
    by - (rule exI[of _ "replicate n ?c"], rule exI[of _ "[Log ''debug'' ''created directory'']"], (auto simp: emit_def))
qed

lemma link_file_symlink_trace:
  assumes "link_file_symlink env p w = (r, w')"
  shows "\<exists>a b c.
     calls w' = calls w @ replicate a (Symlink (source p) (destination p)) @
                replicate b (Remove (destination p)) @
                replicate c (Symlink (source p) (destination p)) \<and>
     emitted w' = emitted w \<and>
     attempts (\<lambda>n. symlink_res env n (source p) (destination p)) (length (calls w)) a \<and>
     (b = 0 \<or> attempts (\<lambda>n. remove_res env n (destination p)) (length (calls w) + a) b) \<and>
     (c = 0 \<or> attempts (\<lambda>n. symlink_res env n (source p) (destination p))
                 (length (calls w) + a + b) c) \<and>
     (0 < b \<longleftrightarrow> (\<exists>e. symlink_res env (length (calls w) + a - 1) (source p) (destination p) = Inl e
                     \<and> code e = Some ''EEXIST'')) \<and>
     (0 < c \<longleftrightarrow> 0 < b \<and> remove_res env (length (calls w) + a + b - 1) (destination p) = Inr ()) \<and>
     r = (if 0 < c then symlink_res env (length (calls w) + a + b + c - 1) (source p) (destination p)
          else if 0 < b then remove_res env (length (calls w) + a + b - 1) (destination p)
          else symlink_res env (length (calls w) + a - 1) (source p) (destination p))"
proof -
  let ?S = "Symlink (source p) (destination p)"
  let ?R = "Remove (destination p)"
  let ?sres = "\<lambda>n. symlink_res env n (source p) (destination p)"
  let ?rres = "\<lambda>n. remove_res env n (destination p)"
  let ?L = "length (calls w)"
  obtain r1 w1 where s1: "doFS (fs_symlink env (source p) (destination p)) 5 w = (r1, w1)"
    by (cases "doFS (fs_symlink env (source p) (destination p)) 5 w")
  from doFS5[OF s1[unfolded fs_symlink_def]] obtain a where a:
    "attempts ?sres ?L a" "calls w1 = calls w @ replicate a ?S"
    "emitted w1 = emitted w" "?sres (?L + a - 1) = r1" by metis
  have apos: "0 < a" using a(1) by (simp add: attempts_def)
  have len1: "length (calls w1) = ?L + a" using a(2) by simp
  show ?thesis
  proof (cases "\<exists>e. r1 = Inl e \<and> code e = Some ''EEXIST''")
    case False
    have "(r, w') = (r1, w1)" using assms s1 False
      by (auto simp: link_file_symlink_def catch_io_def reject_def split: sum.splits)
    then show ?thesis using a False
      by - (rule exI[of _ a], rule exI[of _ 0], (auto simp: add.assoc))
  next
    case True
    then obtain e where e: "r1 = Inl e" "code e = Some ''EEXIST''" by blast
    obtain r2 w2 where rm: "doFS (fs_remove env (destination p)) 5 w1 = (r2, w2)"
      by (cases "doFS (fs_remove env (destination p)) 5 w1")
    from doFS5[OF rm[unfolded fs_remove_def]] obtain b where b:
      "attempts ?rres (length (calls w1)) b" "calls w2 = calls w1 @ replicate b ?R"
      "emitted w2 = emitted w1" "?rres (length (calls w1) + b - 1) = r2" by metis
    have bpos: "0 < b" using b(1) by (simp add: attempts_def)
    have len2: "length (calls w2) = ?L + a + b" using b(2) len1 by simp
    show ?thesis
    proof (cases r2)
      case (Inl e2)
      have "(r, w') = (Inl e2, w2)" using assms s1 e rm Inl
        by (simp add: link_file_symlink_def catch_io_def then_io_def)
      then show ?thesis using a b e Inl apos bpos len1
        by - (rule exI[of _ a], rule exI[of _ b], rule exI[of _ 0], (auto simp: add.assoc))
    next
      case (Inr u)
      have s2: "doFS (fs_symlink env (source p) (destination p)) 5 w2 = (r, w')"
        using assms s1 e rm Inr
        by (simp add: link_file_symlink_def catch_io_def then_io_def)
      from doFS5[OF s2[unfolded fs_symlink_def]] obtain c where c:
        "attempts ?sres (length (calls w2)) c" "calls w' = calls w2 @ replicate c ?S"
        "emitted w' = emitted w2" "?sres (length (calls w2) + c - 1) = r" by metis
      have cpos: "0 < c" using c(1) by (simp add: attempts_def)
      show ?thesis using a b c e Inr apos bpos cpos len1 len2
        by - (rule exI[of _ a], rule exI[of _ b], rule exI[of _ c], (auto simp: add.assoc))
    qed
  qed
qed

lemma only_logs:
  assumes "set ms \<subseteq> {Log ''debug'' ''created directory''}"
  shows "filter isCompleted ms = []" "Report ''not-supported'' \<notin> set ms"
  using assms by (auto simp: filter_empty_conv)

lemma link_file_failed_emitted:
  "\<exists>x. emitted (snd (link_file_failed p e w)) = emitted w @ [x, Completed (Some e) (num p)] \<and>
       \<not> isCompleted x \<and> (x = Report ''not-supported'' \<longleftrightarrow> code e = Some ''EISDIR'')"
  "calls (snd (link_file_failed p e w)) = calls w"
  by (auto simp: link_file_failed_def resolve_def emit_def)

lemma link_file_installed_emitted:
  "emitted (snd (link_file_installed p w)) =
     emitted w @ [Log ''debug'' ''installed'', Completed None (num p)]"
  "calls (snd (link_file_installed p w)) = calls w"
  by (auto simp: link_file_installed_def resolve_def emit_def)

subsection \<open>C3: the retry policy of doFS\<close>

text \<open>
  Claim C3. A file system call run through \<open>doFS\<close> with the default number of tries is
  made \<open>n\<close> times in a row, with \<open>1 \<le> n \<le> 6\<close> (at most 5 more than the first), and
  nothing else is called in between; 100 ms pass before each attempt after the first.
  Every attempt but the last failed with a code among EPERM, EBUSY, EIO, EBADF and UNKNOWN.
  The result is the outcome of the last attempt as the file system gave it, value or
  error; and if fewer than 6 attempts were made, the last outcome is a value or an error
  whose code is outside that set, which was therefore not retried.
\<close>

theorem doFS_retry_policy:
  assumes "doFS (fsop c res) 5 w = (r, w')"
  shows "\<exists>n. 1 \<le> n \<and> n \<le> 6 \<and>
             calls w' = calls w @ replicate n c \<and>
             clock w' = clock w + 100 * (n - 1) \<and>
             r = res (length (calls w) + n - 1) \<and>
             (\<forall>i<n - 1. \<exists>e. res (length (calls w) + i) = Inl e \<and>
                  code e \<in> Some ` {''EPERM'', ''EBUSY'', ''EIO'', ''EBADF'', ''UNKNOWN''}) \<and>
             (n < 6 \<longrightarrow> (\<forall>e. r = Inl e \<longrightarrow>
                  code e \<notin> Some ` {''EPERM'', ''EBUSY'', ''EIO'', ''EBADF'', ''UNKNOWN''}))"
proof -
  have rf: "retry_failure x \<longleftrightarrow> (\<exists>e. x = Inl e \<and>
      code e \<in> Some ` {''EPERM'', ''EBUSY'', ''EIO'', ''EBADF'', ''UNKNOWN''})" for x :: "err + 'a"
    by (auto simp: retry_failure_def retryable_def RETRY_ERRORS_def split: sum.splits option.splits)
  from doFS5[OF assms] obtain n where n: "attempts res (length (calls w)) n"
     "calls w' = calls w @ replicate n c" "clock w' = clock w + 100 * (n - 1)"
     "r = res (length (calls w) + n - 1)" by blast
  show ?thesis
    apply (rule exI[of _ n])
    using n unfolding attempts_def rf by (auto simp: add.assoc)
qed

theorem doFS_retry_policy_witness:
  "doFS (fsop (Remove ''/d'') busy_twice) 5 w0
     = (Inr (), \<lparr>calls = [Remove ''/d'', Remove ''/d'', Remove ''/d''], emitted = [],
                clock = 200\<rparr>) \<and>
   (\<exists>n. 1 \<le> n \<and> n \<le> 6 \<and>
       [Remove ''/d'', Remove ''/d'', Remove ''/d''] = replicate n (Remove ''/d'') \<and>
       (200::nat) = 100 * (n - 1) \<and>
       Inr () = busy_twice (n - 1) \<and>
       (\<forall>i<n - 1. \<exists>e. busy_twice i = Inl e \<and>
            code e \<in> Some ` {''EPERM'', ''EBUSY'', ''EIO'', ''EBADF'', ''UNKNOWN''}))"
proof -
  have h: "doFS (fsop (Remove ''/d'') busy_twice) 5 w0
     = (Inr (), \<lparr>calls = [Remove ''/d'', Remove ''/d'', Remove ''/d''], emitted = [],
                clock = 200\<rparr>)"
    by (simp add: fsop_def w0_def busy_twice_def fsError_def mkErr_def retryable_def
          RETRY_ERRORS_def delayed_def)
  show ?thesis using h doFS_retry_policy[OF h] by (auto simp: w0_def)
qed

subsection \<open>C4: remove-link removes symbolic links only\<close>

text \<open>
  Claim C4. A remove-link request sends exactly one message, \<open>Completed r num\<close> with the
  request's \<open>num\<close>. The file system is asked \<open>lstat\<close> on the destination (\<open>k\<close> attempts
  under \<open>doFS\<close>) and then \<open>remove\<close> on the destination (\<open>m\<close> attempts), and nothing
  else. A removal is attempted (\<open>0 < m\<close>) exactly when \<open>lstat\<close> succeeded and
  reported a symbolic link: after a failed \<open>lstat\<close>, or when it reports a regular
  file or a directory, \<open>remove\<close> is never called. The error \<open>r\<close> of the response is
  \<open>None\<close> exactly when the removal succeeded, or \<open>lstat\<close> succeeded and nothing was
  to be removed.
\<close>

theorem remove_link_only_symlinks:
  "\<exists>r k m.
     emitted (remove_link env p w) = emitted w @ [Completed r (num p)] \<and>
     calls (remove_link env p w) =
       calls w @ replicate k (Lstat (destination p)) @ replicate m (Remove (destination p)) \<and>
     attempts (\<lambda>n. lstat_res env n (destination p)) (length (calls w)) k \<and>
     (0 < m \<longleftrightarrow>
        (\<exists>st. lstat_res env (length (calls w) + k - 1) (destination p) = Inr st \<and>
              isSymbolicLink st)) \<and>
     (0 < m \<longrightarrow> attempts (\<lambda>n. remove_res env n (destination p)) (length (calls w) + k) m \<and>
        (r = None \<longleftrightarrow> remove_res env (length (calls w) + k + m - 1) (destination p) = Inr ())) \<and>
     (m = 0 \<longrightarrow> (r = None \<longleftrightarrow>
        (\<exists>st. lstat_res env (length (calls w) + k - 1) (destination p) = Inr st)))"
proof -
  let ?d = "destination p"
  let ?lres = "\<lambda>n. lstat_res env n ?d"
  let ?rres = "\<lambda>n. remove_res env n ?d"
  obtain r1 w1 where l: "doFS (fs_lstat env ?d) 5 w = (r1, w1)" by (cases "doFS (fs_lstat env ?d) 5 w")
  from doFS5[OF l[unfolded fs_lstat_def]] obtain k where k:
    "attempts ?lres (length (calls w)) k" "calls w1 = calls w @ replicate k (Lstat ?d)"
    "emitted w1 = emitted w" "?lres (length (calls w) + k - 1) = r1" by metis
  show ?thesis
  proof (cases r1)
    case (Inl e)
    let ?r = "Some \<lparr>cls = OtherError, code = code e, message = message e\<rparr>"
    have fin: "remove_link env p w = emit (Completed ?r (num p)) w1"
      using l Inl by (simp add: remove_link_def catch_io_def then_io_def resolve_def)
    show ?thesis
      by (rule exI[of _ ?r], rule exI[of _ k], rule exI[of _ 0])
         (use fin k Inl in \<open>auto simp: emit_def\<close>)
  next
    case (Inr st)
    show ?thesis
    proof (cases "isSymbolicLink st")
      case False
      have fin: "remove_link env p w = emit (Completed None (num p)) w1"
        using l Inr False by (simp add: remove_link_def catch_io_def then_io_def resolve_def)
      show ?thesis
        by (rule exI[of _ None], rule exI[of _ k], rule exI[of _ 0])
           (use fin k Inr False in \<open>auto simp: emit_def\<close>)
    next
      case True
      obtain r2 w2 where r: "doFS (fs_remove env ?d) 5 w1 = (r2, w2)"
        by (cases "doFS (fs_remove env ?d) 5 w1")
      from doFS5[OF r[unfolded fs_remove_def]] obtain m where m:
        "attempts ?rres (length (calls w1)) m" "calls w2 = calls w1 @ replicate m (Remove ?d)"
        "emitted w2 = emitted w1" "?rres (length (calls w1) + m - 1) = r2" by metis
      have mpos: "0 < m" using m(1) by (simp add: attempts_def)
      have len: "length (calls w1) = length (calls w) + k" using k(2) by simp
      let ?r = "case r2 of Inl e \<Rightarrow> Some \<lparr>cls = OtherError, code = code e, message = message e\<rparr>
                  | Inr _ \<Rightarrow> None"
      have fin: "remove_link env p w = emit (Completed ?r (num p)) w2"
        using l Inr True r
        by (simp add: remove_link_def catch_io_def then_io_def resolve_def split: sum.splits)
      show ?thesis
        by (rule exI[of _ ?r], rule exI[of _ k], rule exI[of _ m])
           (use fin k m mpos Inr True len in \<open>auto simp: emit_def split: sum.splits\<close>)
    qed
  qed
qed

theorem remove_link_only_symlinks_witness:
  "remove_link env_ok p_fileA w0 =
     \<lparr>calls = [Lstat ''/game/Data/fileA.txt'', Remove ''/game/Data/fileA.txt''],
      emitted = [Completed None 7], clock = 0\<rparr> \<and>
   remove_link env_stale p_fileA w0 =
     \<lparr>calls = [Lstat ''/game/Data/fileA.txt''], emitted = [Completed None 7], clock = 0\<rparr> \<and>
   (\<exists>r k m. emitted (remove_link env_ok p_fileA w0) = emitted w0 @ [Completed r (num p_fileA)] \<and>
      calls (remove_link env_ok p_fileA w0) =
        calls w0 @ replicate k (Lstat (destination p_fileA)) @
        replicate m (Remove (destination p_fileA)) \<and>
      0 < m \<and> r = None)"
proof -
  have h1: "remove_link env_ok p_fileA w0 =
     \<lparr>calls = [Lstat ''/game/Data/fileA.txt'', Remove ''/game/Data/fileA.txt''],
      emitted = [Completed None 7], clock = 0\<rparr>"
    by (simp add: remove_link_def catch_io_def then_io_def resolve_def fs_lstat_def
          fs_remove_def fsop_def env_ok_def p_fileA_def w0_def emit_def)
  have h2: "remove_link env_stale p_fileA w0 =
     \<lparr>calls = [Lstat ''/game/Data/fileA.txt''], emitted = [Completed None 7], clock = 0\<rparr>"
    by (simp add: remove_link_def catch_io_def then_io_def resolve_def fs_lstat_def
          fs_remove_def fsop_def env_stale_def p_fileA_def w0_def emit_def)
  from remove_link_only_symlinks[of env_ok p_fileA w0] obtain r k m where
    t: "emitted (remove_link env_ok p_fileA w0) = emitted w0 @ [Completed r (num p_fileA)]"
       "calls (remove_link env_ok p_fileA w0) =
          calls w0 @ replicate k (Lstat (destination p_fileA)) @
          replicate m (Remove (destination p_fileA))"
    by blast
  have "0 < m"
  proof (rule ccontr)
    assume "\<not> 0 < m"
    then have "m = 0" by simp
    with t(2) h1 show False
      by (cases k) (auto simp: w0_def p_fileA_def Cons_replicate_eq)
  qed
  moreover have "r = None" using t(1) h1 by (simp add: w0_def)
  ultimately show ?thesis using h1 h2 t by blast
qed

subsection \<open>C5: link-file\<close>

text \<open>
  Claim C5. A link-file request sends the messages \<open>ms\<close>, of which exactly one is a
  \<open>Completed\<close>, carrying the request's \<open>num\<close> and the terminal error \<open>r\<close> (\<open>None\<close>
  on success); \<open>Report ''not-supported''\<close> is among them exactly when that error has
  the code EISDIR. After the preparation \<open>pre\<close> (no \<open>symlink\<close> in it) the calls are
  \<open>a\<close> attempts of \<open>symlink\<close>, then \<open>b\<close> of \<open>remove\<close> on the destination, then \<open>c\<close>
  of \<open>symlink\<close>, each group one call under \<open>doFS\<close>. The removal happens (\<open>0 < b\<close>)
  exactly when the first \<open>symlink\<close> ended with EEXIST, and \<open>symlink\<close> is run again
  (\<open>0 < c\<close>) exactly when that removal succeeded; there is no third group, so an
  EEXIST of the second \<open>symlink\<close> is terminal. The terminal error is the outcome of the
  last group that ran.
\<close>

theorem link_file_protocol:
  "\<exists>ms r pre a b c.
     emitted (link_file env p w) = emitted w @ ms \<and>
     filter isCompleted ms = [Completed r (num p)] \<and>
     (Report ''not-supported'' \<in> set ms \<longleftrightarrow> (\<exists>e. r = Some e \<and> code e = Some ''EISDIR'')) \<and>
     calls (link_file env p w) =
       calls w @ pre @ replicate a (Symlink (source p) (destination p)) @
       replicate b (Remove (destination p)) @
       replicate c (Symlink (source p) (destination p)) \<and>
     Symlink (source p) (destination p) \<notin> set pre \<and>
     (a = 0 \<longrightarrow> b = 0 \<and> c = 0 \<and> r \<noteq> None) \<and>
     (0 < a \<longrightarrow>
        attempts (\<lambda>n. symlink_res env n (source p) (destination p))
          (length (calls w) + length pre) a \<and>
        (b = 0 \<or> attempts (\<lambda>n. remove_res env n (destination p))
                   (length (calls w) + length pre + a) b) \<and>
        (c = 0 \<or> attempts (\<lambda>n. symlink_res env n (source p) (destination p))
                   (length (calls w) + length pre + a + b) c) \<and>
        (0 < b \<longleftrightarrow>
           (\<exists>e. symlink_res env (length (calls w) + length pre + a - 1) (source p) (destination p)
                  = Inl e \<and> code e = Some ''EEXIST'')) \<and>
        (0 < c \<longleftrightarrow>
           0 < b \<and> remove_res env (length (calls w) + length pre + a + b - 1) (destination p)
                   = Inr ()) \<and>
        r = err_of
             (if 0 < c
              then symlink_res env (length (calls w) + length pre + a + b + c - 1)
                     (source p) (destination p)
              else if 0 < b
              then remove_res env (length (calls w) + length pre + a + b - 1) (destination p)
              else symlink_res env (length (calls w) + length pre + a - 1)
                     (source p) (destination p)))"
proof -
  let ?S = "Symlink (source p) (destination p)"
  let ?dir = "dirname env (destination p)"
  let ?w1 = "w\<lparr>calls := calls w @ [EnsureDir ?dir]\<rparr>"
  let ?r0 = "ensureDir_res env (length (calls w)) ?dir"
  have e0: "fs_ensureDir env ?dir w = (?r0, ?w1)"
    by (simp add: fs_ensureDir_def fsop_def)
  show ?thesis
  proof (cases ?r0)
    case (Inl e)
    have fin: "link_file env p w = snd (link_file_failed p e ?w1)"
      using e0 Inl by (simp add: link_file_def catch_io_def then_io_def)
    from link_file_failed_emitted(1)[of p e ?w1] obtain x where
      x: "emitted (snd (link_file_failed p e ?w1)) = emitted ?w1 @ [x, Completed (Some e) (num p)]"
         "\<not> isCompleted x" "x = Report ''not-supported'' \<longleftrightarrow> code e = Some ''EISDIR''" by blast
    show ?thesis
      using fin x link_file_failed_emitted(2)[of p e ?w1]
      by - (rule exI[of _ "[x, Completed (Some e) (num p)]"], rule exI[of _ "Some e"],
            rule exI[of _ "[EnsureDir ?dir]"], rule exI[of _ 0], rule exI[of _ 0],
            rule exI[of _ 0], auto)
  next
    case (Inr created)
    obtain r1 w2 where pr: "link_file_prepare env p created ?w1 = (r1, w2)"
      by (cases "link_file_prepare env p created ?w1")
    from link_file_prepare_trace[OF pr] obtain pre' ms' where pre:
      "calls w2 = calls ?w1 @ pre'" "?S \<notin> set pre'"
      "emitted w2 = emitted ?w1 @ ms'" "set ms' \<subseteq> {Log ''debug'' ''created directory''}"
      by blast
    note ol = only_logs[OF pre(4)]
    show ?thesis
    proof (cases r1)
      case (Inl e)
      have fin: "link_file env p w = snd (link_file_failed p e w2)"
        using e0 Inr pr Inl by (simp add: link_file_def catch_io_def then_io_def)
      from link_file_failed_emitted(1)[of p e w2] obtain x where
        x: "emitted (snd (link_file_failed p e w2)) = emitted w2 @ [x, Completed (Some e) (num p)]"
           "\<not> isCompleted x" "x = Report ''not-supported'' \<longleftrightarrow> code e = Some ''EISDIR''" by blast
      show ?thesis
        using fin x link_file_failed_emitted(2)[of p e w2] pre ol
        by - (rule exI[of _ "ms' @ [x, Completed (Some e) (num p)]"], rule exI[of _ "Some e"],
              rule exI[of _ "EnsureDir ?dir # pre'"], rule exI[of _ 0], rule exI[of _ 0],
              rule exI[of _ 0], auto)
    next
      case (Inr u)
      obtain r2 w3 where sy: "link_file_symlink env p w2 = (r2, w3)"
        by (cases "link_file_symlink env p w2")
      from link_file_symlink_trace[OF sy] obtain a b c where abc:
        "calls w3 = calls w2 @ replicate a ?S @ replicate b (Remove (destination p)) @
                    replicate c ?S"
        "emitted w3 = emitted w2"
        "attempts (\<lambda>n. symlink_res env n (source p) (destination p)) (length (calls w2)) a"
        "b = 0 \<or> attempts (\<lambda>n. remove_res env n (destination p)) (length (calls w2) + a) b"
        "c = 0 \<or> attempts (\<lambda>n. symlink_res env n (source p) (destination p))
                 (length (calls w2) + a + b) c"
        "0 < b \<longleftrightarrow> (\<exists>e. symlink_res env (length (calls w2) + a - 1) (source p) (destination p)
                       = Inl e \<and> code e = Some ''EEXIST'')"
        "0 < c \<longleftrightarrow> 0 < b \<and> remove_res env (length (calls w2) + a + b - 1) (destination p) = Inr ()"
        "r2 = (if 0 < c then symlink_res env (length (calls w2) + a + b + c - 1) (source p) (destination p)
          else if 0 < b then remove_res env (length (calls w2) + a + b - 1) (destination p)
          else symlink_res env (length (calls w2) + a - 1) (source p) (destination p))"
        by blast
      have apos: "0 < a" using abc(3) by (simp add: attempts_def)
      have len: "length (calls w2) = length (calls w) + length (EnsureDir ?dir # pre')"
        using pre(1) by simp
      note abc' = abc(3-8)[unfolded len]
      show ?thesis
      proof (cases r2)
        case (Inl e)
        have fin: "link_file env p w = snd (link_file_failed p e w3)"
          using e0 \<open>?r0 = Inr created\<close> pr \<open>r1 = Inr u\<close> sy Inl
          by (simp add: link_file_def catch_io_def then_io_def)
        from link_file_failed_emitted(1)[of p e w3] obtain x where
          x: "emitted (snd (link_file_failed p e w3)) = emitted w3 @ [x, Completed (Some e) (num p)]"
             "\<not> isCompleted x" "x = Report ''not-supported'' \<longleftrightarrow> code e = Some ''EISDIR''" by blast
        have r: "Some e = err_of r2" using Inl by (simp add: err_of_def)
        note rfact = r[unfolded abc(8)[unfolded len]]
        let ?ms = "ms' @ [x, Completed (Some e) (num p)]"
        have em: "emitted (link_file env p w) = emitted w @ ?ms"
          using fin x(1) abc(2) pre(3) by simp
        have c2: "filter isCompleted ?ms = [Completed (Some e) (num p)]"
          using x(2) ol(1) by simp
        have c3: "Report ''not-supported'' \<in> set ?ms \<longleftrightarrow>
                  (\<exists>e'. Some e = Some e' \<and> code e' = Some ''EISDIR'')"
          using x(3) ol(2) by auto
        have ca: "calls (link_file env p w) = calls w @ (EnsureDir ?dir # pre') @ replicate a ?S @
                    replicate b (Remove (destination p)) @ replicate c ?S"
          using fin link_file_failed_emitted(2)[of p e w3] abc(1) pre(1) by simp
        have notin: "?S \<notin> set (EnsureDir ?dir # pre')" using pre(2) by simp
        have c6: "a = 0 \<longrightarrow> b = 0 \<and> c = 0 \<and> Some e \<noteq> None" using apos by simp
        show ?thesis
          apply (rule exI[of _ ?ms], rule exI[of _ "Some e"],
              rule exI[of _ "EnsureDir ?dir # pre'"], rule exI[of _ a], rule exI[of _ b],
              rule exI[of _ c])
          by (intro conjI impI em c2 c3 ca notin c6 abc'(1-5) rfact)
      next
        case (Inr u2)
        have fin: "link_file env p w = snd (link_file_installed p w3)"
          using e0 \<open>?r0 = Inr created\<close> pr \<open>r1 = Inr u\<close> sy Inr
          by (simp add: link_file_def catch_io_def then_io_def link_file_installed_def resolve_def)
        have r: "None = err_of r2" using Inr by (simp add: err_of_def)
        note rfact = r[unfolded abc(8)[unfolded len]]
        let ?ms = "ms' @ [Log ''debug'' ''installed'', Completed None (num p)]"
        have em: "emitted (link_file env p w) = emitted w @ ?ms"
          using fin link_file_installed_emitted(1)[of p w3] abc(2) pre(3) by simp
        have c2: "filter isCompleted ?ms = [Completed None (num p)]"
          using ol(1) by simp
        have c3: "Report ''not-supported'' \<in> set ?ms \<longleftrightarrow>
                  (\<exists>e'. None = Some e' \<and> code e' = Some ''EISDIR'')"
          using ol(2) by auto
        have ca: "calls (link_file env p w) = calls w @ (EnsureDir ?dir # pre') @ replicate a ?S @
                    replicate b (Remove (destination p)) @ replicate c ?S"
          using fin link_file_installed_emitted(2)[of p w3] abc(1) pre(1) by simp
        have notin: "?S \<notin> set (EnsureDir ?dir # pre')" using pre(2) by simp
        have c6: "a = 0 \<longrightarrow> b = 0 \<and> c = 0 \<and> (None :: err option) \<noteq> None" using apos by simp
        show ?thesis
          apply (rule exI[of _ ?ms], rule exI[of _ "None"],
              rule exI[of _ "EnsureDir ?dir # pre'"], rule exI[of _ a], rule exI[of _ b],
              rule exI[of _ c])
          by (intro conjI impI em c2 c3 ca notin c6 abc'(1-5) rfact)
      qed
    qed
  qed
qed

theorem link_file_protocol_witness:
  "link_file env_stale p_fileA w0 =
     \<lparr>calls = [EnsureDir ''/game/Data'', Remove ''/game/Data/fileA.txt'',
               Symlink ''/staging/modA/fileA.txt'' ''/game/Data/fileA.txt'',
               Symlink ''/staging/modA/fileA.txt'' ''/game/Data/fileA.txt'',
               Remove ''/game/Data/fileA.txt'',
               Symlink ''/staging/modA/fileA.txt'' ''/game/Data/fileA.txt''],
      emitted = [Log ''debug'' ''installed'', Completed None 7], clock = 100\<rparr> \<and>
   (\<exists>ms r. emitted (link_file env_stale p_fileA w0) = emitted w0 @ ms \<and>
      filter isCompleted ms = [Completed r (num p_fileA)] \<and> r = None \<and>
      Report ''not-supported'' \<notin> set ms)"
proof -
  have h: "link_file env_stale p_fileA w0 =
     \<lparr>calls = [EnsureDir ''/game/Data'', Remove ''/game/Data/fileA.txt'',
               Symlink ''/staging/modA/fileA.txt'' ''/game/Data/fileA.txt'',
               Symlink ''/staging/modA/fileA.txt'' ''/game/Data/fileA.txt'',
               Remove ''/game/Data/fileA.txt'',
               Symlink ''/staging/modA/fileA.txt'' ''/game/Data/fileA.txt''],
      emitted = [Log ''debug'' ''installed'', Completed None 7], clock = 100\<rparr>"
    by (simp add: link_file_def link_file_prepare_def link_file_symlink_def
          link_file_installed_def link_file_failed_def catch_io_def then_io_def resolve_def
          reject_def fs_ensureDir_def fs_symlink_def fs_remove_def fsop_def env_stale_def
          p_fileA_def w0_def emit_def delayed_def fsError_def mkErr_def retryable_def
          RETRY_ERRORS_def)
  from link_file_protocol[of env_stale p_fileA w0] obtain ms r where
    t: "emitted (link_file env_stale p_fileA w0) = emitted w0 @ ms"
       "filter isCompleted ms = [Completed r (num p_fileA)]"
       "Report ''not-supported'' \<in> set ms \<longleftrightarrow> (\<exists>e. r = Some e \<and> code e = Some ''EISDIR'')"
    by blast
  have ms: "ms = [Log ''debug'' ''installed'', Completed None 7]"
    using t(1) h by (simp add: w0_def)
  have "r = None" using t(2) ms by simp
  then show ?thesis using h t by blast
qed

section \<open>Properties of the orchestrator\<close>

subsection \<open>Effects of the steps of a removal\<close>

lemma onlyI:
  fixes p :: "'a prom"
  assumes "\<And>w. store (snd (p w)) = store w"
    and "\<And>w. \<exists>xs. effects (snd (p w)) = effects w @ xs \<and> list_all P xs"
  shows "only P p"
  using assms by (simp add: only_def)

lemma onlyD:
  assumes "only P p"
  shows "store (snd (p w)) = store w"
    and "\<exists>xs. effects (snd (p w)) = effects w @ xs \<and> list_all P xs"
  using assms by (simp_all add: only_def)

lemma only_resolve: "only P (resolve_p v)"
  by (simp add: only_def resolve_p_def)

lemma only_reject: "only P (reject_p e)"
  by (simp add: only_def reject_p_def)

lemma only_ext: "P (Call c) \<Longrightarrow> only P (ext env c)"
  by (simp add: only_def ext_def perform_def)

lemma only_showDialog:
  "P (ShowDialog ty title txt labels) \<Longrightarrow> only P (showDialog env ty title txt labels)"
  by (simp add: only_def showDialog_def perform_def)

lemma only_then:
  assumes p: "only P p" and f: "\<And>v. only P (f v)"
  shows "only P (then_p p f)"
proof (rule onlyI)
  fix w
  obtain r w1 where pw: "p w = (r, w1)" by (cases "p w")
  from onlyD[OF p, of w] pw obtain xs where
    1: "store w1 = store w" "effects w1 = effects w @ xs" "list_all P xs" by auto
  show "store (snd (then_p p f w)) = store w"
    using pw 1 onlyD(1)[OF f, of _ w1] by (cases r) (simp_all add: then_p_def)
  show "\<exists>xs. effects (snd (then_p p f w)) = effects w @ xs \<and> list_all P xs"
  proof (cases r)
    case (Fulfilled v)
    from onlyD(2)[OF f, of v w1] obtain ys where
      "effects (snd (f v w1)) = effects w1 @ ys" "list_all P ys" by blast
    then show ?thesis using pw Fulfilled 1
      by - (rule exI[of _ "xs @ ys"], simp add: then_p_def)
  qed (use pw 1 in \<open>auto simp: then_p_def\<close>)
qed

lemma only_catch_if:
  assumes p: "only P p" and h: "\<And>e. only P (h e)"
  shows "only P (catch_if c p h)"
proof (rule onlyI)
  fix w
  obtain r w1 where pw: "p w = (r, w1)" by (cases "p w")
  from onlyD[OF p, of w] pw obtain xs where
    1: "store w1 = store w" "effects w1 = effects w @ xs" "list_all P xs" by auto
  show "store (snd (catch_if c p h w)) = store w"
    using pw 1 onlyD(1)[OF h, of _ w1] by (cases r) (simp_all add: catch_if_def)
  show "\<exists>xs. effects (snd (catch_if c p h w)) = effects w @ xs \<and> list_all P xs"
  proof (cases r)
    case (Rejected e)
    from onlyD(2)[OF h, of e w1] obtain ys where
      "effects (snd (h e w1)) = effects w1 @ ys" "list_all P ys" by blast
    then show ?thesis using pw Rejected 1
      by - (rule exI[of _ "if c e then xs @ ys else xs"], simp add: catch_if_def)
  qed (use pw 1 in \<open>auto simp: catch_if_def\<close>)
qed

lemma only_after:
  assumes f: "only P f"
  shows "only P (after r f)"
proof (rule onlyI)
  fix w
  obtain r1 w1 where fw: "f w = (r1, w1)" by (cases "f w")
  from onlyD[OF f, of w] fw obtain xs where
    1: "store w1 = store w" "effects w1 = effects w @ xs" "list_all P xs" by auto
  show "store (snd (after r f w)) = store w"
    using fw 1 by (cases r1) (simp_all add: after_def)
  show "\<exists>xs. effects (snd (after r f w)) = effects w @ xs \<and> list_all P xs"
    using fw 1 by (cases r1) (simp_all add: after_def)
qed

lemma only_tapCatch:
  fixes p :: "'a prom"
  assumes p: "only P p" and f: "only P f"
  shows "only P (tapCatch p f)"
proof (rule onlyI)
  fix w
  obtain r w1 where pw: "p w = (r, w1)" by (cases "p w")
  from onlyD[OF p, of w] pw obtain xs where
    1: "store w1 = store w" "effects w1 = effects w @ xs" "list_all P xs" by auto
  show "store (snd (tapCatch p f w)) = store w"
    using pw 1 onlyD(1)[OF only_after[OF f], of _ w1] by (cases r) (simp_all add: tapCatch_def)
  show "\<exists>xs. effects (snd (tapCatch p f w)) = effects w @ xs \<and> list_all P xs"
  proof (cases r)
    case (Rejected e)
    from onlyD(2)[OF only_after[OF f], of "Rejected e :: 'a outcome" w1] obtain ys where
      "effects (snd (after (Rejected e :: 'a outcome) f w1)) = effects w1 @ ys" "list_all P ys"
      by blast
    then show ?thesis using pw Rejected 1
      by - (rule exI[of _ "xs @ ys"], simp add: tapCatch_def)
  qed (use pw 1 in \<open>auto simp: tapCatch_def\<close>)
qed

lemma only_pointwise:
  fixes p :: "'a prom"
  assumes "\<And>w. \<exists>q. only P q \<and> p w = q w"
  shows "only P p"
proof (rule onlyI)
  fix w
  from assms[of w] obtain q where q: "only P q" "p w = q w" by blast
  show "store (snd (p w)) = store w" using onlyD(1)[OF q(1), of w] q(2) by simp
  show "\<exists>xs. effects (snd (p w)) = effects w @ xs \<and> list_all P xs"
    using onlyD(2)[OF q(1), of w] q(2) by simp
qed

lemma only_mono:
  assumes "only P p" and "\<And>x. P x \<Longrightarrow> Q x"
  shows "only Q p"
proof (rule onlyI)
  fix w
  show "store (snd (p w)) = store w" using onlyD(1)[OF assms(1)] .
  from onlyD(2)[OF assms(1), of w] obtain xs where
    "effects (snd (p w)) = effects w @ xs" "list_all P xs" by blast
  then show "\<exists>xs. effects (snd (p w)) = effects w @ xs \<and> list_all Q xs"
    using assms(2) by (auto simp: list_all_iff)
qed

lemma only_fire:
  "P x \<Longrightarrow> only P (\<lambda>w. (Fulfilled (), if c then perform x w else w))"
  by (simp add: only_def perform_def)

lemma only_undeploy_cycle:
  "only isDeployCall (undeploy_cycle env act gameMode md state deployPath stagingPath)"
  unfolding undeploy_cycle_def
  by (intro only_then only_tapCatch only_ext only_fire)
     (auto split: option.splits intro: only_ext only_reject only_resolve)

lemma only_undeploy: "only isDeployCall (undeploy env activators gameMode md)"
proof (rule only_pointwise)
  fix w :: oworld
  let ?c = "\<lambda>act dp. undeploy_cycle env act gameMode md (store w) dp
                        (installPathForGame env (store w) gameMode)"
  have "undeploy env activators gameMode md w = resolve_p () w \<or>
        undeploy env activators gameMode md w =
          reject_p (processCanceled ''No deployment method active'') w \<or>
        (\<exists>act dp. undeploy env activators gameMode md w = ?c act dp w)"
    unfolding undeploy_def Let_def by (auto split: option.splits)
  then show "\<exists>q. only isDeployCall q \<and> undeploy env activators gameMode md w = q w"
    using only_resolve only_reject only_undeploy_cycle by metis
qed

lemma only_undeployMod:
  "only (\<lambda>x. isDeployCall x \<or> isDialog x \<or> x = Call EmitDeployMods)
     (undeployMod env activators gameMode md)"
  unfolding undeployMod_def catch_code_def
  by (auto intro!: only_resolve only_catch_if only_then only_showDialog only_ext
        only_mono[OF only_undeploy])

lemma only_removeStaged: "only isRemoveAsync (removeStaged env installPth md)"
  unfolding removeStaged_def catch_code_def catch_p_def Let_def
  by (auto split: option.splits
        intro!: only_resolve only_reject only_catch_if only_then only_ext)

lemma then_p_eval:
  "p w = (r, w1) \<Longrightarrow>
   then_p p f w =
     (case r of Fulfilled v \<Rightarrow> f v w1 | Rejected e \<Rightarrow> (Rejected e, w1)
      | Pending \<Rightarrow> (Pending, w1))"
  by (simp add: then_p_def)

lemma removeChain_fulfilled:
  assumes "then_p (undeployMod env activators gameMode md)
             (\<lambda>_. removeStaged env installPth md) w = (Fulfilled (), w4)"
  shows "removeChain env activators gameMode modId has_callback installPth md w =
           (Fulfilled (),
            dispatch (StopActivity ''mods'' (''removing_'' @ modId))
              (callback_or has_callback None (\<lambda>w'. w')
                 (dispatch (RemoveMod gameMode (mod_id md)) w4)))"
  unfolding removeChain_def
  by (simp add: then_p_eval[of "then_p (undeployMod env activators gameMode md)
          (\<lambda>_. removeStaged env installPth md)" w _ w4, OF assms] catch_p_def catch_class_def catch_if_def finally_p_def
        after_def)

lemma removeChain_pending:
  assumes "then_p (undeployMod env activators gameMode md)
             (\<lambda>_. removeStaged env installPth md) w = (Pending, w4)"
  shows "removeChain env activators gameMode modId has_callback installPth md w = (Pending, w4)"
  unfolding removeChain_def
  by (simp add: then_p_eval[of "then_p (undeployMod env activators gameMode md)
          (\<lambda>_. removeStaged env installPth md)" w _ w4, OF assms] catch_p_def catch_class_def catch_if_def finally_p_def
        after_def)

lemma removeChain_rejected:
  assumes "then_p (undeployMod env activators gameMode md)
             (\<lambda>_. removeStaged env installPth md) w = (Rejected e, w4)"
  shows "store (snd (removeChain env activators gameMode modId has_callback installPth md w)) =
           store w4"
    and "\<exists>tail. effects (snd (removeChain env activators gameMode modId has_callback
                               installPth md w)) =
                  effects w4 @ tail @ [Dispatch (StopActivity ''mods'' (''removing_'' @ modId))] \<and>
                list_all isReport tail \<and>
                (has_callback \<longrightarrow> tail = [Callback (Some e)])"
proof -
  let ?stop = "Dispatch (StopActivity ''mods'' (''removing_'' @ modId))"
  let ?w' = "snd (removeChain env activators gameMode modId has_callback installPth md w)"
  have "store ?w' = store w4 \<and>
        (\<exists>tail. effects ?w' = effects w4 @ tail @ [?stop] \<and>
                list_all isReport tail \<and>
                (has_callback \<longrightarrow> tail = [Callback (Some e)]))"
    unfolding removeChain_def
    apply (cases "cls e"; cases has_callback)
    apply (simp_all add: then_p_eval[of "then_p (undeployMod env activators gameMode md)
          (\<lambda>_. removeStaged env installPth md)" w _ w4, OF assms] catch_p_def catch_class_def catch_if_def finally_p_def after_def
         callback_or_def perform_def dispatch_def)
    done
  then show "store ?w' = store w4"
    and "\<exists>tail. effects ?w' = effects w4 @ tail @ [?stop] \<and>
                list_all isReport tail \<and>
                (has_callback \<longrightarrow> tail = [Callback (Some e)])"
    by blast+
qed

lemma onRemoveMod_chain:
  assumes "mods (store w) gameMode = Some ms" and "ms modId = Some md"
    and "mod_state md = ''downloaded'' \<or> mod_state md = ''installed''"
  shows "onRemoveMod env activators gameMode modId has_callback w =
           snd (removeChain env activators gameMode modId has_callback
                  (installPathForGame env (store w) gameMode) md
                  (removal_started gameMode modId w))"
  using assms
  by (auto simp: onRemoveMod_def getSafe_modState_def Let_def removal_started_def)

lemma removal_started_world:
  "store (removal_started gameMode modId w) = store w"
  "effects (removal_started gameMode modId w) =
     effects w @ [Dispatch (SetModEnabled (profileId_of (store w) gameMode) modId False),
                  Dispatch (StartActivity ''mods'' (''removing_'' @ modId))]"
  by (simp_all add: removal_started_def dispatch_def)

lemma isRemoveMod_iff: "isRemoveMod x \<longleftrightarrow> (\<exists>g m. x = Dispatch (RemoveMod g m))"
  by (cases x rule: isRemoveMod.cases) auto

lemma no_removeMod:
  assumes "list_all P xs" and "\<And>x. P x \<Longrightarrow> \<not> isRemoveMod x"
  shows "filter isRemoveMod xs = []"
  using assms by (auto simp: filter_empty_conv list_all_iff)




text \<open>The definitions to unfold when a handler is evaluated on a sample input.\<close>

lemmas chain_defs =
  then_p_def catch_p_def catch_class_def catch_code_def catch_if_def tapCatch_def finally_p_def
  after_def resolve_p_def reject_p_def ext_def perform_def dispatch_def showDialog_def
  callback_or_def Let_def

lemmas remove_defs =
  onRemoveMod_def removeChain_def undeployMod_def removeStaged_def undeploy_def
  undeploy_cycle_def find_activator_def getSafe_modState_def profileId_of_def
  removal_started_def or_empty_def processCanceled_def

lemmas sample_defs =
  env_with_def nothing_fails_def always_ignore_def always_cancel_def ow_me_def st_me_def
  mods_skyrim_def mod_m1_def mod_m2_def symlink_activator_def fsError_def mkErr_def

subsection \<open>C1: declining the first confirmation of validateStagingTag\<close>

lemma validateStagingTag_declined:
  assumes "readFile_res env (length (effects w)) tagPath = Fulfilled data"
    and "JSON_parse env data = Inr tag"
    and "get_instance tag = Inr inst"
    and "inst \<noteq> Some (JString (instanceId (store w)))"
    and "dialog_res env (Suc (length (effects w))) ''Confirm'' DIFFERENT_INSTANCE_TEXT = ''Cancel''"
  shows "effects (snd (validateStagingTag env tagPath w)) =
           effects w @
           [Call (ReadFileAsync tagPath),
            ShowDialog ''question'' ''Confirm'' DIFFERENT_INSTANCE_TEXT [''Cancel'', ''Continue''],
            ShowDialog ''question'' ''Confirm'' NOT_MARKED_TEXT [''Cancel'', ''I'm sure'']]"
    and "fst (validateStagingTag env tagPath w) =
           (if dialog_res env (Suc (Suc (length (effects w)))) ''Confirm'' NOT_MARKED_TEXT = ''Cancel''
            then Rejected userCanceled else Fulfilled ())"
  using assms
  by (simp_all add: validateStagingTag_def catch_p_def catch_if_def then_p_def readFileAsync_def
        showDialog_def perform_def reject_p_def resolve_p_def Let_def)

text \<open>
  Claim C1 (the code departs from it). The tag file exists and names the instance
  \<open>other\<close> while the application instance is \<open>me\<close>. The user answers \<open>Cancel\<close> to
  the first dialog. The rejection with \<open>UserCanceled\<close> then reaches the
  \<^verbatim>\<open>.catch\<close> that follows in the chain, which shows the dialog for an unmarked
  directory: two dialogs are shown, not one. If the user confirms the second dialog the
  validation is fulfilled although the first was declined; if the user cancels it too,
  the validation is rejected with \<open>UserCanceled\<close> after two dialogs.
\<close>

theorem validateStagingTag_prompts_twice:
  "validateStagingTag (env_with nothing_fails decline_first)
       ''/staging/__vortex_staging_folder'' ow_me =
     (Fulfilled (),
      ow_me\<lparr>effects :=
        [Call (ReadFileAsync ''/staging/__vortex_staging_folder''),
         ShowDialog ''question'' ''Confirm'' DIFFERENT_INSTANCE_TEXT [''Cancel'', ''Continue''],
         ShowDialog ''question'' ''Confirm'' NOT_MARKED_TEXT [''Cancel'', ''I'm sure'']]\<rparr>) \<and>
   validateStagingTag (env_with nothing_fails always_cancel)
       ''/staging/__vortex_staging_folder'' ow_me =
     (Rejected userCanceled,
      ow_me\<lparr>effects :=
        [Call (ReadFileAsync ''/staging/__vortex_staging_folder''),
         ShowDialog ''question'' ''Confirm'' DIFFERENT_INSTANCE_TEXT [''Cancel'', ''Continue''],
         ShowDialog ''question'' ''Confirm'' NOT_MARKED_TEXT [''Cancel'', ''I'm sure'']]\<rparr>)"
  by (simp add: validateStagingTag_def catch_p_def catch_if_def then_p_def readFileAsync_def
        showDialog_def perform_def reject_p_def resolve_p_def Let_def env_with_def
        get_instance_def ow_me_def st_me_def decline_first_def always_cancel_def
        DIFFERENT_INSTANCE_TEXT_def NOT_MARKED_TEXT_def)

subsection \<open>C2: the report flag of a failed purge\<close>

lemma purgeFailed_allowReport:
  "purgeFailed e w =
     (Fulfilled (),
      perform (ErrorNotification ''Purge failed'' (message e)
                 (Some (code e = Some ''ENOENT'' \<or> code e = Some ''ENOTFOUND''))) w)"
  by (simp add: purgeFailed_def showErrorNotification_def)

text \<open>
  Claim C2 (the code departs from it). Purging with the old deployment method fails
  with an error that is neither \<open>ProcessCanceled\<close> nor \<open>TemporaryError\<close>. The
  notification \<open>Purge failed\<close> is shown with \<open>allowReport = true\<close> when the code is
  ENOENT and with \<open>allowReport = false\<close> when the code is EPERM: the flag is the
  opposite of the one claimed.
\<close>

theorem purge_failed_report_flag:
  "effects (snd (initProm_purge (env_with (purge_fails ''ENOENT'') always_cancel)
       symlink_activator ''/staging'' [([], ''/game/Data'')] (resolve_p ()) ow_me)) =
     [Call (PrePurge ''symlink_activator'' ''/staging''),
      Call (Purge ''symlink_activator'' ''/staging'' ''/game/Data''),
      ErrorNotification ''Purge failed'' ''ENOENT'' (Some True),
      Call (PostPurge ''symlink_activator'')] \<and>
   effects (snd (initProm_purge (env_with (purge_fails ''EPERM'') always_cancel)
       symlink_activator ''/staging'' [([], ''/game/Data'')] (resolve_p ()) ow_me)) =
     [Call (PrePurge ''symlink_activator'' ''/staging''),
      Call (Purge ''symlink_activator'' ''/staging'' ''/game/Data''),
      ErrorNotification ''Purge failed'' ''EPERM'' (Some False),
      Call (PostPurge ''symlink_activator'')]"
  by (simp add: initProm_purge_def finally_p_def after_def catch_class_def catch_p_def
        catch_if_def then_p_def ext_def perform_def resolve_p_def reject_p_def
        purgeFailed_def showErrorNotification_def env_with_def purge_fails_def
        symlink_activator_def ow_me_def fsError_def mkErr_def)

subsection \<open>C6: removing a mod that is being downloaded or installed\<close>

text \<open>
  Claim C6 (amended). A remove-mod request for a mod whose state is neither
  \<open>downloaded\<close> nor \<open>installed\<close> dispatches nothing and leaves the store, and so the
  mod catalog, as it was. If a callback was passed it is called once, with a
  \<open>ProcessCanceled\<close> error, and nothing else happens; if no callback was passed,
  nothing is signalled at all.
\<close>

theorem onRemoveMod_unfinished_mod:
  assumes "getSafe_modState (store w) gameMode modId \<noteq> Some ''downloaded''"
    and "getSafe_modState (store w) gameMode modId \<noteq> Some ''installed''"
  shows "store (onRemoveMod env activators gameMode modId has_callback w) = store w \<and>
         mods (store (onRemoveMod env activators gameMode modId has_callback w)) =
           mods (store w) \<and>
         effects (onRemoveMod env activators gameMode modId has_callback w) =
           effects w @
           (if has_callback then [Callback (Some (processCanceled CANT_DELETE))] else []) \<and>
         cls (processCanceled CANT_DELETE) = ProcessCanceled"
  using assms
  by (simp add: onRemoveMod_def callback_or_def perform_def Let_def processCanceled_def
        mkErr_def)

theorem onRemoveMod_unfinished_mod_witness:
  "getSafe_modState (store ow_me) ''skyrim'' ''m2'' = Some ''installing'' \<and>
   store (onRemoveMod (env_with nothing_fails always_cancel) [symlink_activator]
            ''skyrim'' ''m2'' True ow_me) = store ow_me \<and>
   effects (onRemoveMod (env_with nothing_fails always_cancel) [symlink_activator]
            ''skyrim'' ''m2'' True ow_me) = [Callback (Some (processCanceled CANT_DELETE))]"
proof -
  have s: "getSafe_modState (store ow_me) ''skyrim'' ''m2'' = Some ''installing''"
    by (simp add: getSafe_modState_def ow_me_def st_me_def mods_skyrim_def mod_m1_def mod_m2_def)
  have a: "getSafe_modState (store ow_me) ''skyrim'' ''m2'' \<noteq> Some ''downloaded''"
    and b: "getSafe_modState (store ow_me) ''skyrim'' ''m2'' \<noteq> Some ''installed''"
    using s by simp_all
  show ?thesis
    using s onRemoveMod_unfinished_mod[OF a b, of "env_with nothing_fails always_cancel"
        "[symlink_activator]" True]
    by (simp add: ow_me_def)
qed

text \<open>
  As first stated, with a signal for every such request, C6 does not hold: the mod \<open>m2\<close>
  is being installed, the request passes no callback, and the handler returns without
  any effect.
\<close>

theorem onRemoveMod_no_callback_silent:
  "getSafe_modState (store ow_me) ''skyrim'' ''m2'' = Some ''installing'' \<and>
   effects (onRemoveMod (env_with nothing_fails always_cancel) [symlink_activator]
            ''skyrim'' ''m2'' False ow_me) = []"
  by (simp add: onRemoveMod_def callback_or_def Let_def getSafe_modState_def ow_me_def
        st_me_def mods_skyrim_def mod_m1_def mod_m2_def)

subsection \<open>C7: undeploying a mod whose files are gone\<close>




subsection \<open>C8: the catalog entry is removed last\<close>

text \<open>
  Claim C8. The mod is in the catalog in state \<open>downloaded\<close> or \<open>installed\<close>. Let
  \<open>u\<close> be the undeploy step, run once the removal has started, and \<open>d\<close> the deletion
  of the staged files, run after it. If both are fulfilled, \<open>RemoveMod\<close> is dispatched
  right after all their effects, before the callback and the end of the activity, no
  \<open>RemoveMod\<close> was dispatched earlier, and the entry is gone from the catalog. If
  either is rejected or never settles, no \<open>RemoveMod\<close> is dispatched at all and the
  store is unchanged, so the catalog entry is still there.
\<close>

theorem onRemoveMod_catalog_entry:
  assumes ms: "mods (store w) gameMode = Some ms" and md: "ms modId = Some md"
    and st: "mod_state md = ''downloaded'' \<or> mod_state md = ''installed''"
  shows
   "let w2 = removal_started gameMode modId w;
        u = undeployMod env activators gameMode md w2;
        d = removeStaged env (installPathForGame env (store w) gameMode) md (snd u);
        w' = onRemoveMod env activators gameMode modId has_callback w
    in (fst u = Fulfilled () \<and> fst d = Fulfilled () \<longrightarrow>
          effects w' =
            effects (snd d) @ Dispatch (RemoveMod gameMode (mod_id md)) #
            (if has_callback then [Callback None] else []) @
            [Dispatch (StopActivity ''mods'' (''removing_'' @ modId))] \<and>
          filter isRemoveMod (drop (length (effects w)) (effects (snd d))) = [] \<and>
          mods (store w') = (mods (store w))(gameMode \<mapsto> ms(mod_id md := None))) \<and>
       (\<not> (fst u = Fulfilled () \<and> fst d = Fulfilled ()) \<longrightarrow>
          filter isRemoveMod (drop (length (effects w)) (effects w')) = [] \<and>
          store w' = store w \<and> mods (store w') gameMode = Some ms)"
proof -
  let ?ip = "installPathForGame env (store w) gameMode"
  let ?w2 = "removal_started gameMode modId w"
  let ?U = "undeployMod env activators gameMode md"
  let ?D = "removeStaged env ?ip md"
  let ?w' = "onRemoveMod env activators gameMode modId has_callback w"
  let ?pre = "[Dispatch (SetModEnabled (profileId_of (store w) gameMode) modId False),
               Dispatch (StartActivity ''mods'' (''removing_'' @ modId))]"
  let ?stop = "Dispatch (StopActivity ''mods'' (''removing_'' @ modId))"
  note chain = onRemoveMod_chain[OF ms md st, of env activators has_callback]
  obtain r1 w3 where u: "?U ?w2 = (r1, w3)" by (cases "?U ?w2")
  obtain r2 w4 where d: "?D w3 = (r2, w4)" by (cases "?D w3")
  from onlyD[OF only_undeployMod, of env activators gameMode md ?w2] u obtain xs where
    xs: "store w3 = store w" "effects w3 = effects w @ ?pre @ xs"
        "list_all (\<lambda>x. isDeployCall x \<or> isDialog x \<or> x = Call EmitDeployMods) xs"
    by (auto simp: removal_started_world)
  from onlyD[OF only_removeStaged, of env ?ip md w3] d obtain ys where
    ys: "store w4 = store w3" "effects w4 = effects w3 @ ys" "list_all isRemoveAsync ys"
    by auto
  have nx: "filter isRemoveMod xs = []"
    by (rule no_removeMod[OF xs(3)]) (auto simp: isRemoveMod_iff)
  have ny: "filter isRemoveMod ys = []"
    by (rule no_removeMod[OF ys(3)]) (auto simp: isRemoveMod_iff)
  have both: "then_p ?U (\<lambda>_. ?D) ?w2 =
      (case r1 of Fulfilled v \<Rightarrow> (r2, w4) | Rejected e \<Rightarrow> (Rejected e, w3)
       | Pending \<Rightarrow> (Pending, w3))"
    using u d by (simp add: then_p_def split: outcome.splits)
  have pos: "effects ?w' = effects w4 @ Dispatch (RemoveMod gameMode (mod_id md)) #
            (if has_callback then [Callback None] else []) @ [?stop] \<and>
          filter isRemoveMod (drop (length (effects w)) (effects w4)) = [] \<and>
          mods (store ?w') = (mods (store w))(gameMode \<mapsto> ms(mod_id md := None))"
    if "r1 = Fulfilled ()" "r2 = Fulfilled ()"
  proof -
    have "then_p ?U (\<lambda>_. ?D) ?w2 = (Fulfilled (), w4)" using both that by simp
    from removeChain_fulfilled[OF this, of modId has_callback]
    show ?thesis
      using chain xs ys nx ny ms
      by (simp add: callback_or_def dispatch_def perform_def)
  qed
  have rej: "filter isRemoveMod (drop (length (effects w)) (effects ?w')) = [] \<and>
          store ?w' = store w \<and> mods (store ?w') gameMode = Some ms"
    if "then_p ?U (\<lambda>_. ?D) ?w2 = (Rejected e, wf)" "wf = w3 \<or> wf = w4" for e wf
  proof -
    from removeChain_rejected[OF that(1), of modId has_callback] obtain tail where
      t: "store ?w' = store wf" "effects ?w' = effects wf @ tail @ [?stop]"
         "list_all isReport tail"
      using chain by auto
    have nt: "filter isRemoveMod tail = []"
      by (rule no_removeMod[OF t(3)]) (auto simp: isRemoveMod_iff)
    show ?thesis using that(2) t xs ys nx ny nt ms by auto
  qed
  have pen: "filter isRemoveMod (drop (length (effects w)) (effects ?w')) = [] \<and>
          store ?w' = store w \<and> mods (store ?w') gameMode = Some ms"
    if "then_p ?U (\<lambda>_. ?D) ?w2 = (Pending, wf)" "wf = w3 \<or> wf = w4" for wf
  proof -
    from removeChain_pending[OF that(1), of modId has_callback]
    have "?w' = wf" using chain by simp
    then show ?thesis using that(2) xs ys nx ny ms by auto
  qed
  have neg: "filter isRemoveMod (drop (length (effects w)) (effects ?w')) = [] \<and>
          store ?w' = store w \<and> mods (store ?w') gameMode = Some ms"
    if "\<not> (r1 = Fulfilled () \<and> r2 = Fulfilled ())"
  proof (cases r1)
    case (Fulfilled v)
    then have tp: "then_p ?U (\<lambda>_. ?D) ?w2 = (r2, w4)" using both by simp
    show ?thesis
    proof (cases r2)
      case (Fulfilled v2)
      then show ?thesis using that \<open>r1 = Fulfilled v\<close> by simp
    next
      case (Rejected e)
      show ?thesis by (rule rej[of e w4]) (use tp Rejected in simp_all)
    next
      case Pending
      show ?thesis by (rule pen[of w4]) (use tp Pending in simp_all)
    qed
  next
    case (Rejected e)
    show ?thesis by (rule rej[of e w3]) (use both Rejected in simp_all)
  next
    case Pending
    show ?thesis by (rule pen[of w3]) (use both Pending in simp_all)
  qed
  show ?thesis
    unfolding Let_def using pos neg u d by (auto simp: u)
qed

theorem onRemoveMod_catalog_entry_witness:
  "effects (onRemoveMod (env_with nothing_fails always_ignore) [symlink_activator]
              ''skyrim'' ''m1'' True ow_me) =
     [Dispatch (SetModEnabled (Some ''p1'') ''m1'' False),
      Dispatch (StartActivity ''mods'' ''removing_m1''),
      Call (GetNormalizeFunc ''/game/Data''),
      Call (LoadActivation (Some []) ''/game/Data'' ''/staging'' ''symlink_activator''),
      Call (Prepare ''symlink_activator'' ''/game/Data'' False),
      Call (Deactivate ''symlink_activator'' ''/staging/modA'' []),
      Call (Finalize ''symlink_activator'' ''skyrim'' ''/game/Data'' ''/staging''),
      Call (SaveActivation (Some []) ''me'' ''/game/Data'' ''/staging'' ''symlink_activator''),
      Call (RemoveAsync ''/staging/modA''),
      Dispatch (RemoveMod ''skyrim'' ''m1''),
      Callback None,
      Dispatch (StopActivity ''mods'' ''removing_m1'')] \<and>
   mods (store (onRemoveMod (env_with nothing_fails always_ignore) [symlink_activator]
                  ''skyrim'' ''m1'' True ow_me)) =
     (mods (store ow_me))(''skyrim'' \<mapsto> mods_skyrim(mod_id mod_m1 := None)) \<and>
   store (onRemoveMod (env_with (remove_fails ''EPERM'') always_ignore) [symlink_activator]
            ''skyrim'' ''m1'' True ow_me) = store ow_me \<and>
   mods (store (onRemoveMod (env_with (remove_fails ''EPERM'') always_ignore)
                  [symlink_activator] ''skyrim'' ''m1'' True ow_me)) ''skyrim'' =
     Some mods_skyrim \<and>
   store (onRemoveMod (env_with (cancel_fails_too ''EPERM'' ''ENOTFOUND'') always_ignore)
            [symlink_activator] ''skyrim'' ''m1'' True ow_me) = store ow_me"
proof -
  let ?ok = "env_with nothing_fails always_ignore"
  let ?bad = "env_with (remove_fails ''EPERM'') always_ignore"
  let ?w2 = "removal_started ''skyrim'' ''m1'' ow_me"
  have ms: "mods (store ow_me) ''skyrim'' = Some mods_skyrim"
    by (simp add: ow_me_def st_me_def)
  have md: "mods_skyrim ''m1'' = Some mod_m1"
    by (simp add: mods_skyrim_def)
  have st: "mod_state mod_m1 = ''downloaded'' \<or> mod_state mod_m1 = ''installed''"
    by (simp add: mod_m1_def)
  have u_ok: "fst (undeployMod ?ok [symlink_activator] ''skyrim'' mod_m1 ?w2) = Fulfilled ()"
    by (simp add: chain_defs remove_defs sample_defs remove_fails_def)
  have d_ok: "fst (removeStaged ?ok (installPathForGame ?ok (store ow_me) ''skyrim'') mod_m1
                     (snd (undeployMod ?ok [symlink_activator] ''skyrim'' mod_m1 ?w2))) =
              Fulfilled ()"
    by (simp add: chain_defs remove_defs sample_defs remove_fails_def)
  have d_eff: "effects (snd (removeStaged ?ok (installPathForGame ?ok (store ow_me) ''skyrim'')
                     mod_m1 (snd (undeployMod ?ok [symlink_activator] ''skyrim'' mod_m1 ?w2)))) =
     [Dispatch (SetModEnabled (Some ''p1'') ''m1'' False),
      Dispatch (StartActivity ''mods'' ''removing_m1''),
      Call (GetNormalizeFunc ''/game/Data''),
      Call (LoadActivation (Some []) ''/game/Data'' ''/staging'' ''symlink_activator''),
      Call (Prepare ''symlink_activator'' ''/game/Data'' False),
      Call (Deactivate ''symlink_activator'' ''/staging/modA'' []),
      Call (Finalize ''symlink_activator'' ''skyrim'' ''/game/Data'' ''/staging''),
      Call (SaveActivation (Some []) ''me'' ''/game/Data'' ''/staging'' ''symlink_activator''),
      Call (RemoveAsync ''/staging/modA'')]"
    by (simp add: chain_defs remove_defs sample_defs remove_fails_def)
  have d_bad: "fst (removeStaged ?bad (installPathForGame ?bad (store ow_me) ''skyrim'') mod_m1
                     (snd (undeployMod ?bad [symlink_activator] ''skyrim'' mod_m1 ?w2))) \<noteq>
              Fulfilled ()"
    by (simp add: chain_defs remove_defs sample_defs remove_fails_def)
  have u_bad: "fst (undeployMod (env_with (cancel_fails_too ''EPERM'' ''ENOTFOUND'') always_ignore)
                     [symlink_activator] ''skyrim'' mod_m1 ?w2) \<noteq> Fulfilled ()"
    by (simp add: chain_defs remove_defs sample_defs cancel_fails_too_def)
  have id1: "mod_id mod_m1 = ''m1''" by (simp add: mod_m1_def)
  from onRemoveMod_catalog_entry[OF ms md st, of ?ok "[symlink_activator]" True] u_ok d_ok
  have pos: "effects (onRemoveMod ?ok [symlink_activator] ''skyrim'' ''m1'' True ow_me) =
      effects (snd (removeStaged ?ok (installPathForGame ?ok (store ow_me) ''skyrim'')
                     mod_m1 (snd (undeployMod ?ok [symlink_activator] ''skyrim'' mod_m1 ?w2)))) @
      [Dispatch (RemoveMod ''skyrim'' ''m1''), Callback None,
       Dispatch (StopActivity ''mods'' ''removing_m1'')]"
    "mods (store (onRemoveMod ?ok [symlink_activator] ''skyrim'' ''m1'' True ow_me)) =
      (mods (store ow_me))(''skyrim'' \<mapsto> mods_skyrim(mod_id mod_m1 := None))"
    by (simp_all add: Let_def id1)
  from onRemoveMod_catalog_entry[OF ms md st, of ?bad "[symlink_activator]" True] d_bad
  have neg: "store (onRemoveMod ?bad [symlink_activator] ''skyrim'' ''m1'' True ow_me) =
               store ow_me"
    "mods (store (onRemoveMod ?bad [symlink_activator] ''skyrim'' ''m1'' True ow_me)) ''skyrim'' =
       Some mods_skyrim"
    by (simp_all add: Let_def ms)
  from onRemoveMod_catalog_entry[OF ms md st,
      of "env_with (cancel_fails_too ''EPERM'' ''ENOTFOUND'') always_ignore"
         "[symlink_activator]" True] u_bad
  have neg2: "store (onRemoveMod (env_with (cancel_fails_too ''EPERM'' ''ENOTFOUND'')
                        always_ignore) [symlink_activator] ''skyrim'' ''m1'' True ow_me) =
               store ow_me"
    by (simp add: Let_def)
  show ?thesis using pos neg neg2 d_eff by simp
qed

subsection \<open>C9: deleting the staged files\<close>

text \<open>
  Claim C9. For a mod with an installation path, the deletion of its staged files calls
  \<open>removeAsync\<close> on the mod's directory. A first failure with ENOTEMPTY is followed by
  exactly one more call, whose outcome decides; there is never a third call. ENOENT, on
  the first call or on the retry, is taken as success. Any other error, also a second
  ENOTEMPTY, is passed on as the rejection of the step.
\<close>

theorem removeStaged_tolerance:
  assumes "truthy env (installationPath md)" and "installationPath md = Some ip"
  shows
    "let p = path_join env installPth ip;
         r1 = call_res env (length (effects w)) (RemoveAsync p);
         r2 = call_res env (Suc (length (effects w))) (RemoveAsync p);
         w1 = perform (Call (RemoveAsync p)) w;
         w2 = perform (Call (RemoveAsync p)) w1;
         res = removeStaged env installPth md w
     in (r1 = Fulfilled () \<longrightarrow> res = (Fulfilled (), w1)) \<and>
        (r1 = Pending \<longrightarrow> res = (Pending, w1)) \<and>
        (\<forall>e. r1 = Rejected e \<and> code e = Some ''ENOENT'' \<longrightarrow> res = (Fulfilled (), w1)) \<and>
        (\<forall>e. r1 = Rejected e \<and> code e \<noteq> Some ''ENOENT'' \<and> code e \<noteq> Some ''ENOTEMPTY''
             \<longrightarrow> res = (Rejected e, w1)) \<and>
        (\<forall>e. r1 = Rejected e \<and> code e = Some ''ENOTEMPTY'' \<longrightarrow>
             (r2 = Fulfilled () \<longrightarrow> res = (Fulfilled (), w2)) \<and>
             (r2 = Pending \<longrightarrow> res = (Pending, w2)) \<and>
             (\<forall>e2. r2 = Rejected e2 \<and> code e2 = Some ''ENOENT'' \<longrightarrow> res = (Fulfilled (), w2)) \<and>
             (\<forall>e2. r2 = Rejected e2 \<and> code e2 \<noteq> Some ''ENOENT'' \<longrightarrow> res = (Rejected e2, w2)))"
  using assms
  by (auto simp: removeStaged_def catch_p_def catch_code_def catch_if_def ext_def perform_def
        resolve_p_def reject_p_def Let_def)

theorem removeStaged_tolerance_witness:
  "truthy env_notempty_once (installationPath mod_m1) \<and>
   installationPath mod_m1 = Some ''modA'' \<and>
   call_res env_notempty_once (length (effects ow_me)) (RemoveAsync ''/staging/modA'') =
     Rejected (fsError ''ENOTEMPTY'') \<and>
   call_res env_notempty_once (Suc (length (effects ow_me))) (RemoveAsync ''/staging/modA'') =
     Fulfilled () \<and>
   removeStaged env_notempty_once ''/staging'' mod_m1 ow_me =
     (Fulfilled (),
      perform (Call (RemoveAsync ''/staging/modA''))
        (perform (Call (RemoveAsync ''/staging/modA'')) ow_me))"
proof -
  have t: "truthy env_notempty_once (installationPath mod_m1)"
    by (simp add: env_notempty_once_def env_with_def mod_m1_def)
  have i: "installationPath mod_m1 = Some ''modA''"
    by (simp add: mod_m1_def)
  have j: "path_join env_notempty_once ''/staging'' ''modA'' = ''/staging/modA''"
    by (simp add: env_notempty_once_def env_with_def)
  have r1: "call_res env_notempty_once (length (effects ow_me)) (RemoveAsync ''/staging/modA'') =
     Rejected (fsError ''ENOTEMPTY'')"
    by (simp add: env_notempty_once_def env_with_def ow_me_def)
  have r2: "call_res env_notempty_once (Suc (length (effects ow_me)))
              (RemoveAsync ''/staging/modA'') = Fulfilled ()"
    by (simp add: env_notempty_once_def env_with_def ow_me_def)
  have c: "code (fsError ''ENOTEMPTY'') = Some ''ENOTEMPTY''"
    by (simp add: fsError_def mkErr_def)
  from removeStaged_tolerance[OF t i, of "''/staging''" ow_me] r1 r2 c
  have "removeStaged env_notempty_once ''/staging'' mod_m1 ow_me =
     (Fulfilled (),
      perform (Call (RemoveAsync ''/staging/modA''))
        (perform (Call (RemoveAsync ''/staging/modA'')) ow_me))"
    by (simp add: Let_def j)
  then show ?thesis using t i r1 r2 by simp
qed

section \<open>Properties of the file validation\<close>

lemma keys_obj_set: "fst ` set (obj_set obj k v) = insert k (fst ` set obj)"
proof (induction obj)
  case Nil
  then show ?case by simp
next
  case (Cons a obj)
  show ?case
  proof (cases "fst a = k")
    case True
    then show ?thesis by (cases a) auto
  next
    case False
    then have "obj_set (a # obj) k v = a # obj_set obj k v" by (cases a) auto
    then show ?thesis using Cons.IH by auto
  qed
qed

lemma distinct_obj_set: "distinct (map fst obj) \<Longrightarrow> distinct (map fst (obj_set obj k v))"
proof (induction obj)
  case Nil
  then show ?case by simp
next
  case (Cons a obj)
  show ?case
  proof (cases "fst a = k")
    case True
    then show ?thesis using Cons.prems by (cases a) auto
  next
    case False
    then have "obj_set (a # obj) k v = a # obj_set obj k v" by (cases a) auto
    then show ?thesis using Cons False by (auto simp: keys_obj_set)
  qed
qed

lemma distinct_hash_line: "distinct (map fst prev) \<Longrightarrow> distinct (map fst (hash_line line prev))"
  by (auto simp: hash_line_def obj_assign_def distinct_obj_set split: list.splits)

lemma distinct_fold_hash_line:
  "distinct (map fst prev) \<Longrightarrow> distinct (map fst (fold hash_line lines prev))"
  by (induction lines arbitrary: prev) (auto simp: distinct_hash_line)

lemma distinct_fileList: "distinct (obj_keys (fileList_of env basePath))"
  by (auto simp: fileList_of_def readHashList_def obj_keys_def distinct_fold_hash_line
        split: sum.splits)

lemma promise_all_validateFile:
  "promise_all (validateFile env basePath fl) ks r =
     Inr \<lparr>missing = missing r @ filter (unreadable env basePath) ks,
          changed = changed r @ filter (hash_differs env basePath fl) ks\<rparr>"
proof (induction ks arbitrary: r)
  case Nil
  then show ?case by simp
next
  case (Cons k ks)
  have step: "validateFile env basePath fl k r =
      Inr \<lparr>missing = missing r @ filter (unreadable env basePath) [k],
           changed = changed r @ filter (hash_differs env basePath fl) [k]\<rparr>"
    by (cases "read_file env (v_join env basePath k)")
       (simp_all add: validateFile_def hashFile_def unreadable_def hash_differs_def)
  show ?case
    by (simp add: step Cons.IH)
qed

lemma validateFiles_eq:
  "fst (validateFiles env basePath) =
     promise_all (validateFile env basePath (fileList_of env basePath))
       (sched env (obj_keys (fileList_of env basePath))) \<lparr>missing = [], changed = []\<rparr>"
  by (simp add: validateFiles_def fileList_of_def split: sum.splits)

subsection \<open>C10: validateFiles\<close>

text \<open>
  Claim C10. Whatever order the concurrent reads complete in (\<open>sched\<close> permutes the
  names), \<open>validateFiles\<close> is fulfilled, never rejected. When \<^verbatim>\<open>md5sums.csv\<close>
  cannot be read the result is \<open>\<lparr>missing = [], changed = []\<rparr>\<close>. In general
  \<open>missing\<close> and \<open>changed\<close> hold names of the hash list only, each at most once, and
  every name of the hash list (the keys of the object built by \<open>readHashList\<close>) is in
  exactly one of three cases: in \<open>missing\<close> only, and the file of that name under
  \<open>basePath\<close> cannot be read; in \<open>changed\<close> only, and the file can be read and the
  MD5 digest of its content is not the hash listed for it; in neither, and the file can
  be read and the digest of its content is the listed hash.
\<close>

theorem validateFiles_partition:
  assumes perm: "\<And>ks. distinct ks \<Longrightarrow> distinct (sched env ks) \<and> set (sched env ks) = set ks"
  shows "\<exists>r. fst (validateFiles env basePath) = Inr r \<and>
           ((\<exists>e. readHashList env basePath = Inl e) \<longrightarrow> r = \<lparr>missing = [], changed = []\<rparr>) \<and>
           distinct (missing r) \<and> distinct (changed r) \<and>
           set (missing r) \<union> set (changed r) \<subseteq> set (obj_keys (fileList_of env basePath)) \<and>
           (\<forall>k \<in> set (obj_keys (fileList_of env basePath)).
              (k \<in> set (missing r) \<and> k \<notin> set (changed r) \<and> unreadable env basePath k) \<or>
              (k \<notin> set (missing r) \<and> k \<in> set (changed r) \<and>
                 hash_differs env basePath (fileList_of env basePath) k) \<or>
              (k \<notin> set (missing r) \<and> k \<notin> set (changed r) \<and>
                 hash_matches env basePath (fileList_of env basePath) k))"
proof -
  let ?fl = "fileList_of env basePath"
  let ?ks = "sched env (obj_keys ?fl)"
  let ?r = "\<lparr>missing = filter (unreadable env basePath) ?ks,
            changed = filter (hash_differs env basePath ?fl) ?ks\<rparr>"
  from perm[OF distinct_fileList, of env basePath]
  have d: "distinct ?ks" and s: "set ?ks = set (obj_keys ?fl)" by simp_all
  have res: "fst (validateFiles env basePath) = Inr ?r"
    by (simp add: validateFiles_eq promise_all_validateFile)
  have empty: "?r = \<lparr>missing = [], changed = []\<rparr>" if "readHashList env basePath = Inl e" for e
  proof -
    have "obj_keys ?fl = []" using that by (simp add: fileList_of_def obj_keys_def)
    then have "?ks = []" using s by simp
    then show ?thesis by simp
  qed
  have part: "(k \<in> set (missing ?r) \<and> k \<notin> set (changed ?r) \<and> unreadable env basePath k) \<or>
              (k \<notin> set (missing ?r) \<and> k \<in> set (changed ?r) \<and> hash_differs env basePath ?fl k) \<or>
              (k \<notin> set (missing ?r) \<and> k \<notin> set (changed ?r) \<and> hash_matches env basePath ?fl k)"
    if "k \<in> set (obj_keys ?fl)" for k
    using that s
    by (cases "read_file env (v_join env basePath k)")
       (auto simp: unreadable_def hash_differs_def hash_matches_def)
  show ?thesis
    by (rule exI[of _ ?r]) (use res empty d s part in auto)
qed

theorem validateFiles_partition_witness:
  "fst (validateFiles venv_sample ''/app'') = Inr \<lparr>missing = [''c.js''], changed = [''b.js'']\<rparr> \<and>
   fst (validateFiles venv_nolist ''/app'') = Inr \<lparr>missing = [], changed = []\<rparr> \<and>
   obj_keys (fileList_of venv_sample ''/app'') = [''a.js'', ''b.js'', ''c.js''] \<and>
   unreadable venv_sample ''/app'' ''c.js'' \<and>
   hash_differs venv_sample ''/app'' (fileList_of venv_sample ''/app'') ''b.js'' \<and>
   hash_matches venv_sample ''/app'' (fileList_of venv_sample ''/app'') ''a.js''"
proof -
  have h: "distinct (sched venv_sample ks) \<and> set (sched venv_sample ks) = set ks"
    if "distinct ks" for ks
    using that by (simp add: venv_sample_def)
  have h': "distinct (sched venv_nolist ks) \<and> set (sched venv_nolist ks) = set ks"
    if "distinct ks" for ks
    using that by (simp add: venv_nolist_def venv_sample_def)
  have fl: "fileList_of venv_sample ''/app'' =
      [(''a.js'', Some ''md5-A''), (''b.js'', Some ''md5-X''), (''c.js'', Some ''md5-C'')]"
    by (simp add: fileList_of_def readHashList_def hash_line_def obj_assign_def venv_sample_def)
  have keys: "obj_keys (fileList_of venv_sample ''/app'') = [''a.js'', ''b.js'', ''c.js'']"
    by (simp add: fl obj_keys_def)
  have e1: "fst (validateFiles venv_sample ''/app'') =
      Inr \<lparr>missing = [''c.js''], changed = [''b.js'']\<rparr>"
    by (simp add: validateFiles_def readHashList_def hash_line_def obj_assign_def obj_keys_def
          obj_get_def validateFile_def hashFile_def venv_sample_def)
  have nl: "\<exists>e. readHashList venv_nolist ''/app'' = Inl e"
    by (simp add: readHashList_def venv_nolist_def)
  from validateFiles_partition[of venv_nolist "''/app''", OF h'] nl
  have e2: "fst (validateFiles venv_nolist ''/app'') = Inr \<lparr>missing = [], changed = []\<rparr>"
    by auto
  from validateFiles_partition[of venv_sample "''/app''", OF h] e1 keys
  have "unreadable venv_sample ''/app'' ''c.js'' \<and>
        hash_differs venv_sample ''/app'' (fileList_of venv_sample ''/app'') ''b.js'' \<and>
        hash_matches venv_sample ''/app'' (fileList_of venv_sample ''/app'') ''a.js''"
    by auto
  then show ?thesis using e1 e2 keys by simp
qed

end
